theory Spec2Isabelle
  imports Complex_Main "HOL-Library.Multiset" "HOL-Library.Sublist"
begin

section \<open>Numbers of the host language\<close>

text \<open>
  Every number of the priority service is a JavaScript number, that is an IEEE 754
  binary64 value. A finite binary64 value is a rational, so a number is modelled by the
  rational it denotes, and each arithmetic operation of the source by the exact operation
  followed by rounding to the nearest value with a 53 bit significand, ties to the even
  significand (\<open>fl\<close>). The exponent range is left unbounded: overflow to Infinity
  (beyond about 1.8e308) is outside the model, and so is the sign of zero, which no test of
  the source observes. The source underflows nowhere: its products and quotients are far
  from the subnormal range, and sums and differences are exact there. NaN arises only as
  the time value of an invalid date, which the model represents by \<open>None\<close>; a task's hours
  are a finite number or absent. Comparisons of numbers are exact in the source and in the
  model.
\<close>

type_synonym number = rat

definition round_half_even :: "rat \<Rightarrow> int" where
  "round_half_even x =
     (let n = \<lfloor>x\<rfloor>; r = x - of_int n
      in if r < 1/2 then n else if 1/2 < r then n + 1 else if even n then n else n + 1)"

text \<open>The number of binary digits of a positive integer.\<close>

function bitLength :: "int \<Rightarrow> nat" where
  "bitLength n = (if n \<le> 0 then 0 else Suc (bitLength (n div 2)))"
  by pat_completeness auto
termination
  by (relation "measure nat") auto

declare bitLength.simps [simp del]

text \<open>The binary exponent of a positive rational: \<open>2 powi ilog2 x \<le> x < 2 powi (ilog2 x + 1)\<close>.\<close>

definition ilog2 :: "rat \<Rightarrow> int" where
  "ilog2 x = (if 1 \<le> x then int (bitLength \<lfloor>x\<rfloor>) - 1
              else - int (bitLength (\<lceil>1 / x\<rceil> - 1)))"

definition fl :: "rat \<Rightarrow> number" where
  "fl x = (if x = 0 then 0
           else let u = power_int 2 (ilog2 \<bar>x\<bar> - 52)
                in sgn x * of_int (round_half_even (\<bar>x\<bar> / u)) * u)"

definition fadd :: "number \<Rightarrow> number \<Rightarrow> number" where
  "fadd a b = fl (a + b)"

definition fsub :: "number \<Rightarrow> number \<Rightarrow> number" where
  "fsub a b = fl (a - b)"

definition fmul :: "number \<Rightarrow> number \<Rightarrow> number" where
  "fmul a b = fl (a * b)"

definition fdiv :: "number \<Rightarrow> number \<Rightarrow> number" where
  "fdiv a b = fl (a / b)"

section \<open>Data model\<close>

text \<open>
  \<open>TaskCategory\<close> is the source's type: its six literals and nothing else, as the CHECK
  constraint of the tasks table has it. What the scorer does with a category outside the
  type is modelled apart, on run-time values (section \<open>The scorer on run-time values\<close>).
\<close>

datatype TaskCategory =
  exhibition | education | collection | publication | research | admin

datatype TaskStatus = pending | in_progress | completed | paused | cancelled

datatype EnergyLevel = high | medium | low

text \<open>
  The fields of a task that the priority service reads, and its identity. An optional
  field that is absent (or null) is \<open>None\<close>.
\<close>

record Task =
  task_id :: int
  title :: string
  category :: TaskCategory
  estimated_hours :: "number option"
  due_date :: "string option"
  status :: TaskStatus

record 'a Factors =
  deadline :: 'a
  impact :: 'a
  dependency :: 'a
  complexity :: 'a

type_synonym UrgencyFactors = "int Factors"

text \<open>
  The recommendation of the source is a Korean sentence built from a tier and the reason
  tags that fired; the model keeps the tier and the tags. In the \<open>Normal\<close> tier an empty tag
  list is rendered as the fallback phrase; the \<open>Low\<close> tier has a fixed text.
\<close>

datatype Reason = DeadlineImminent | HighImpact | BlocksOthers | HighComplexity

datatype Recommendation =
  Urgent "Reason list" | Important "Reason list" | Normal "Reason list" | Low

record PriorityCalculationResult =
  task :: Task
  urgencyScore :: number
  factors :: UrgencyFactors
  recommendation :: Recommendation

record ScheduleSlot =
  time :: string
  tasks :: "Task list"
  energy :: EnergyLevel

datatype Advice = Overloaded | LightDay | EmptyMorning | HeavyEvening | WellBalanced

record DailySchedule =
  date :: string
  morning :: ScheduleSlot
  afternoon :: ScheduleSlot
  evening :: ScheduleSlot
  totalEstimatedHours :: number
  aiRecommendation :: "Advice list"

section \<open>Urgency scorer\<close>

text \<open>
  \<open>new Date(dueDate).getTime()\<close> is the host's date parser. It is a parameter of the model:
  \<open>parse s\<close> is the time value in milliseconds, or \<open>None\<close> for an invalid date, whose time
  value is NaN. \<open>now\<close> is the reading of the clock, \<open>new Date().getTime()\<close>.
\<close>

type_synonym DateParser = "string \<Rightarrow> int option"

definition msPerDay :: number where
  "msPerDay = 1000 * 60 * 60 * 24"

definition daysUntilDue :: "int \<Rightarrow> int \<Rightarrow> number" where
  "daysUntilDue now due = fdiv (fsub (of_int due) (of_int now)) msPerDay"

text \<open>
  The empty string is falsy, as an absent due date. Every comparison with NaN is false, so
  an invalid date falls through to the last \<open>return\<close>.
\<close>

definition getDeadlineScore :: "DateParser \<Rightarrow> int \<Rightarrow> string option \<Rightarrow> int" where
  "getDeadlineScore parse now dueDate =
     (case dueDate of
        None \<Rightarrow> 2
      | Some s \<Rightarrow>
          if s = [] then 2
          else (case parse s of
                  None \<Rightarrow> 2
                | Some due \<Rightarrow>
                    let d = daysUntilDue now due
                    in if d < 0 then 10
                       else if d \<le> 1 then 9
                       else if d \<le> 3 then 8
                       else if d \<le> 7 then 6
                       else if d \<le> 14 then 4
                       else if d \<le> 30 then 3
                       else 2))"

text \<open>The table \<open>categoryImpact\<close>, which has an entry for every category of the type.\<close>

fun categoryImpact :: "TaskCategory \<Rightarrow> int" where
  "categoryImpact exhibition = 5"
| "categoryImpact education = 4"
| "categoryImpact collection = 3"
| "categoryImpact publication = 3"
| "categoryImpact research = 2"
| "categoryImpact admin = 2"

text \<open>\<open>v || 2\<close> on a looked-up number: 0 is falsy.\<close>

definition orDefault :: "int \<Rightarrow> int \<Rightarrow> int" where
  "orDefault n d = (if n = 0 then d else n)"

text \<open>
  \<open>if (task.estimated_hours)\<close> and \<open>!estimatedHours\<close>: an absent value and 0 are falsy,
  every other number is truthy.
\<close>

definition getImpactScore :: "Task \<Rightarrow> int" where
  "getImpactScore t =
     (let score = 0 + orDefault (categoryImpact (category t)) 2;
          score = (case estimated_hours t of
                     None \<Rightarrow> score
                   | Some h \<Rightarrow>
                       if h = 0 then score
                       else if h > 8 then score + 3
                       else if h > 4 then score + 2
                       else score + 1)
      in min score 10)"

definition getDependencyScore :: "Task \<Rightarrow> int" where
  "getDependencyScore t =
     (if category t = exhibition \<or> category t = collection then 5 else 2)"

definition getComplexityScore :: "number option \<Rightarrow> int" where
  "getComplexityScore estimatedHours =
     (case estimatedHours of
        None \<Rightarrow> 2
      | Some h \<Rightarrow>
          if h = 0 then 2
          else if h > 16 then 8
          else if h > 8 then 6
          else if h > 4 then 4
          else if h > 2 then 3
          else 2)"

definition getUrgencyFactors :: "DateParser \<Rightarrow> int \<Rightarrow> Task \<Rightarrow> UrgencyFactors" where
  "getUrgencyFactors parse now t =
     \<lparr> deadline = getDeadlineScore parse now (due_date t),
       impact = getImpactScore t,
       dependency = getDependencyScore t,
       complexity = getComplexityScore (estimated_hours t) \<rparr>"

definition generateRecommendation :: "UrgencyFactors \<Rightarrow> number \<Rightarrow> Recommendation" where
  "generateRecommendation f score =
     (let reasons = (if deadline f \<ge> 8 then [DeadlineImminent] else [])
                  @ (if impact f \<ge> 7 then [HighImpact] else [])
                  @ (if dependency f \<ge> 5 then [BlocksOthers] else [])
                  @ (if complexity f \<ge> 6 then [HighComplexity] else [])
      in if score \<ge> 8 then Urgent reasons
         else if score \<ge> 6 then Important reasons
         else if score \<ge> 4 then Normal reasons
         else Low)"

text \<open>The weights are the binary64 values of the literals 0.40, 0.30, 0.20 and 0.10.\<close>

definition weights :: "number Factors" where
  "weights = \<lparr> deadline = fl (40/100), impact = fl (30/100),
               dependency = fl (20/100), complexity = fl (10/100) \<rparr>"

text \<open>
  The weighted sum of \<open>calculateUrgencyScore\<close>, in the source's order of evaluation: four
  products, added from the left.
\<close>

definition weightedSum :: "UrgencyFactors \<Rightarrow> number" where
  "weightedSum f =
     fadd (fadd (fadd (fmul (of_int (deadline f)) (deadline weights))
                      (fmul (of_int (impact f)) (impact weights)))
                (fmul (of_int (dependency f)) (dependency weights)))
          (fmul (of_int (complexity f)) (complexity weights))"

definition calculateUrgencyScore ::
  "DateParser \<Rightarrow> int \<Rightarrow> Task \<Rightarrow> PriorityCalculationResult" where
  "calculateUrgencyScore parse now t =
     (let f = getUrgencyFactors parse now t;
          score = weightedSum f
      in \<lparr> task = t, urgencyScore = score, factors = f,
           recommendation = generateRecommendation f score \<rparr>)"

section \<open>The scorer on run-time values\<close>






















section \<open>Schedule planner\<close>

text \<open>
  \<open>pendingTasks.map(task => this.calculateUrgencyScore(task))\<close>: each call reads the clock
  for itself, so the task at position \<open>k\<close> is scored at the reading \<open>clock k\<close>.
\<close>

fun scoreEach ::
  "DateParser \<Rightarrow> (nat \<Rightarrow> int) \<Rightarrow> nat \<Rightarrow> Task list \<Rightarrow> PriorityCalculationResult list" where
  "scoreEach parse clock k [] = []"
| "scoreEach parse clock k (t # ts) =
     calculateUrgencyScore parse (clock k) t # scoreEach parse clock (Suc k) ts"

definition eligible :: "Task \<Rightarrow> bool" where
  "eligible t = (status t = pending \<or> status t = in_progress)"

text \<open>
  \<open>sort((a, b) => b.urgencyScore - a.urgencyScore)\<close> is the host's stable sort, in
  descending order of the score: the sign of the difference of two finite numbers is the
  sign of their comparison.
\<close>

definition sortByUrgency :: "PriorityCalculationResult list \<Rightarrow> PriorityCalculationResult list" where
  "sortByUrgency rs = sort_key (\<lambda>r. - urgencyScore r) rs"

definition calculateTopPriorityTasks ::
  "DateParser \<Rightarrow> (nat \<Rightarrow> int) \<Rightarrow> Task list \<Rightarrow> PriorityCalculationResult list" where
  "calculateTopPriorityTasks parse clock ts =
     (let pendingTasks = filter eligible ts;
          scoredTasks = scoreEach parse clock 0 pendingTasks;
          scoredTasks = sortByUrgency scoredTasks
      in take 3 scoredTasks)"

text \<open>\<open>t.estimated_hours || 0\<close>\<close>

definition hoursOr0 :: "Task \<Rightarrow> number" where
  "hoursOr0 t = (case estimated_hours t of None \<Rightarrow> 0 | Some h \<Rightarrow> if h = 0 then 0 else h)"

text \<open>\<open>reduce((sum, t) => sum + (t.estimated_hours || 0), 0)\<close>\<close>

definition sumHours :: "Task list \<Rightarrow> number" where
  "sumHours ts = foldl (\<lambda>sum t. fadd sum (hoursOr0 t)) 0 ts"

definition maxHoursPerSlot :: number where
  "maxHoursPerSlot = 3"

text \<open>
  The \<open>while\<close> loop of \<open>balanceWorkload\<close> on one slot, as a function of the slot's task
  list and the running total; it returns both as the loop leaves them. \<open>pop\<close> removes the
  last task, which exists since the list has more than one element.
\<close>

function balanceLoop :: "Task list \<Rightarrow> number \<Rightarrow> Task list \<times> number" where
  "balanceLoop ts totalHours =
     (if totalHours > maxHoursPerSlot \<and> length ts > 1
      then balanceLoop (butlast ts) (fsub totalHours (hoursOr0 (last ts)))
      else (ts, totalHours))"
  by pat_completeness auto
termination
  by (relation "measure (\<lambda>(ts, totalHours). length ts)") auto

declare balanceLoop.simps [simp del]

definition balanceSlot :: "ScheduleSlot \<Rightarrow> ScheduleSlot" where
  "balanceSlot slot = slot\<lparr>tasks := fst (balanceLoop (tasks slot) (sumHours (tasks slot)))\<rparr>"

definition isCreative :: "Task \<Rightarrow> bool" where
  "isCreative t = (category t = exhibition \<or> category t = research)"

definition isComplex :: "Task \<Rightarrow> bool" where
  "isComplex t = (hoursOr0 t > 2)"

text \<open>
  The \<open>forEach\<close> of \<open>categorizeTasksByEnergy\<close>: one task is pushed onto the end of the list
  of its slot. The state is the triple of the three slots.
\<close>

definition pushTask :: "Task \<Rightarrow> ScheduleSlot \<Rightarrow> ScheduleSlot" where
  "pushTask t slot = slot\<lparr>tasks := tasks slot @ [t]\<rparr>"

fun distribute ::
  "Task list \<Rightarrow> ScheduleSlot \<times> ScheduleSlot \<times> ScheduleSlot
     \<Rightarrow> ScheduleSlot \<times> ScheduleSlot \<times> ScheduleSlot" where
  "distribute [] slots = slots"
| "distribute (t # ts) (m, a, e) =
     (if isCreative t \<and> isComplex t then distribute ts (pushTask t m, a, e)
      else if category t = education \<or> category t = publication
      then distribute ts (m, pushTask t a, e)
      else distribute ts (m, a, pushTask t e))"

definition emptySlots :: "ScheduleSlot \<times> ScheduleSlot \<times> ScheduleSlot" where
  "emptySlots =
     (\<lparr> time = ''09:00-12:00'', tasks = [], energy = high \<rparr>,
      \<lparr> time = ''13:00-17:00'', tasks = [], energy = medium \<rparr>,
      \<lparr> time = ''17:00-18:00'', tasks = [], energy = low \<rparr>)"

text \<open>
  \<open>balanceWorkload(morning, afternoon, evening)\<close> runs the loop on each of the three slots in
  turn; the slots share no state.
\<close>

definition categorizeTasksByEnergy ::
  "Task list \<Rightarrow> ScheduleSlot \<times> ScheduleSlot \<times> ScheduleSlot" where
  "categorizeTasksByEnergy ts =
     (case distribute ts emptySlots of
        (m, a, e) \<Rightarrow> (balanceSlot m, balanceSlot a, balanceSlot e))"

definition calculateTotalHours :: "ScheduleSlot \<times> ScheduleSlot \<times> ScheduleSlot \<Rightarrow> number" where
  "calculateTotalHours schedule =
     (case schedule of (m, a, e) \<Rightarrow> sumHours (tasks m @ tasks a @ tasks e))"

definition generateScheduleRecommendation ::
  "ScheduleSlot \<times> ScheduleSlot \<times> ScheduleSlot \<Rightarrow> number \<Rightarrow> Advice list" where
  "generateScheduleRecommendation schedule totalHours =
     (case schedule of (m, a, e) \<Rightarrow>
        let recommendations =
              (if totalHours > 8 then [Overloaded]
               else if totalHours < 4 then [LightDay] else [])
            @ (if length (tasks m) = 0 then [EmptyMorning] else [])
            @ (if length (tasks e) > 2 then [HeavyEvening] else [])
        in if length recommendations > 0 then recommendations else [WellBalanced])"

text \<open>
  \<open>today\<close> is the host's \<open>new Date().toISOString().split('T')[0]\<close>. The optional
  \<open>userPreferences\<close> argument of the source is passed on and never read; the model leaves
  it out.
\<close>

definition generateDailySchedule ::
  "DateParser \<Rightarrow> (nat \<Rightarrow> int) \<Rightarrow> string \<Rightarrow> Task list \<Rightarrow> DailySchedule" where
  "generateDailySchedule parse clock today ts =
     (let priorityTasks = calculateTopPriorityTasks parse clock ts;
          topTasks = map task (take 10 priorityTasks);
          schedule = categorizeTasksByEnergy topTasks;
          totalHours = calculateTotalHours schedule
      in case schedule of (m, a, e) \<Rightarrow>
           \<lparr> date = today, morning = m, afternoon = a, evening = e,
             totalEstimatedHours = totalHours,
             aiRecommendation = generateScheduleRecommendation schedule totalHours \<rparr>)"

section \<open>Example inputs\<close>

text \<open>
  Concrete tasks and a concrete date parser, at which the theorems below are instantiated.
  \<open>exampleParse\<close> knows the date-only strings of the sample data, which the host parses as
  midnight UTC of that day.
\<close>

definition exampleTask :: "int \<Rightarrow> TaskCategory \<Rightarrow> number option \<Rightarrow> string option \<Rightarrow> Task" where
  "exampleTask i c h d =
     \<lparr> task_id = i, title = [], category = c, estimated_hours = h, due_date = d,
       status = pending \<rparr>"

definition exampleParse :: DateParser where
  "exampleParse s =
     (if s = ''2025-12-04'' then Some 1764806400000
      else if s = ''2025-12-05'' then Some 1764892800000
      else if s = ''2025-12-10'' then Some 1765324800000
      else None)"

definition twelveTasks :: "Task list" where
  "twelveTasks =
     [exampleTask 1 exhibition None None, exampleTask 2 exhibition None None,
      exampleTask 3 exhibition None None, exampleTask 4 education None None,
      exampleTask 5 education None None, exampleTask 6 education None None,
      exampleTask 7 publication None None, exampleTask 8 publication None None,
      exampleTask 9 publication None None, exampleTask 10 admin None None,
      exampleTask 11 admin None None, exampleTask 12 admin None None]"

text \<open>
  Three tasks of one category (so of one urgency score) whose hours are binary64 values:
  1.5, the next value but one after 1.5 (printed 1.5000000000000004) and 1.
\<close>

definition driftTasks :: "Task list" where
  "driftTasks =
     [exampleTask 1 collection (Some (3/2)) None,
      exampleTask 2 collection (Some (3/2 + 1 / 2 ^ 51)) None,
      exampleTask 3 collection (Some 1) None]"

definition exampleSlot :: ScheduleSlot where
  "exampleSlot =
     \<lparr> time = ''17:00-18:00'',
       tasks = [exampleTask 1 admin (Some 2) None, exampleTask 2 admin (Some (3/2)) None,
                exampleTask 3 admin (Some 1) None],
       energy = low \<rparr>"

text \<open>
  A slot of two tasks whose hours are the binary64 values of the literals 0.3 and 2.7.
\<close>

definition decimalSlot :: ScheduleSlot where
  "decimalSlot =
     \<lparr> time = ''13:00-17:00'',
       tasks = [exampleTask 1 education (Some (fl (3/10))) None,
                exampleTask 2 education (Some (fl (27/10))) None],
       energy = medium \<rparr>"

section \<open>The specification's reading of the impact score\<close>





section \<open>Hours on which the arithmetic is exact\<close>

text \<open>
  A task list whose hours are non-negative multiples of \<open>1 / 2 ^ q\<close> hour with a sum below
  \<open>2 ^ 53\<close> such units (for \<open>q = 10\<close>: multiples of 1/1024 hour with a sum below
  \<open>2 ^ 43\<close> hours): every sum and difference that \<open>balanceWorkload\<close> forms on it has a 53 bit
  significand, so none of them is rounded.
\<close>

definition exactHours :: "nat \<Rightarrow> Task list \<Rightarrow> bool" where
  "exactHours q ts =
     (list_all (\<lambda>t. 0 \<le> hoursOr0 t \<and> hoursOr0 t * 2 ^ q \<in> \<int>) ts
      \<and> sum_list (map hoursOr0 ts) * 2 ^ q < 2 ^ 53)"

section \<open>The running total of the balancing loop\<close>

text \<open>
  The value that the variable \<open>totalHours\<close> of \<open>balanceWorkload\<close> holds when the slot has
  been cut back to its first \<open>j\<close> tasks: the initial total less the hours of each removed
  task, subtracted from the last task backwards, every difference rounded. \<open>runningTotal\<close>
  starts from the total that \<open>balanceWorkload\<close> computes, the binary64 sum of the hours.
\<close>

definition totalAfterTrim :: "number \<Rightarrow> Task list \<Rightarrow> nat \<Rightarrow> number" where
  "totalAfterTrim tot ts j = foldl (\<lambda>total t. fsub total (hoursOr0 t)) tot (rev (drop j ts))"

definition runningTotal :: "Task list \<Rightarrow> nat \<Rightarrow> number" where
  "runningTotal ts j = totalAfterTrim (sumHours ts) ts j"

section \<open>Rounding: bounds, monotonicity, exactness\<close>

lemma bitLength_bounds:
  "0 < n \<Longrightarrow> 2 ^ (bitLength n - 1) \<le> n \<and> n < 2 ^ bitLength n"
proof (induction n rule: bitLength.induct)
  case (1 n)
  show ?case
  proof (cases "n = 1")
    case True
    have "bitLength 1 = Suc (bitLength 0)" by (subst bitLength.simps) simp
    also have "bitLength 0 = 0" by (subst bitLength.simps) simp
    finally show ?thesis using True by simp
  next
    case False
    with "1.prems" have m: "0 < n div 2" by simp
    have ih: "2 ^ (bitLength (n div 2) - 1) \<le> n div 2 \<and> n div 2 < 2 ^ bitLength (n div 2)"
      using "1.IH" "1.prems" m by simp
    have k: "0 < bitLength (n div 2)" using m by (subst bitLength.simps) simp
    then have p: "(2::int) ^ bitLength (n div 2) = 2 * 2 ^ (bitLength (n div 2) - 1)"
      by (cases "bitLength (n div 2)") simp_all
    have e: "bitLength n = Suc (bitLength (n div 2))"
      using "1.prems" by (subst bitLength.simps) simp
    have "2 * (n div 2) \<le> n" "n \<le> 2 * (n div 2) + 1" by simp_all
    then show ?thesis using ih p unfolding e by (simp del: bitLength.simps)
  qed
qed

lemma bitLength_pos: "0 < n \<Longrightarrow> 0 < bitLength n"
  by (subst bitLength.simps) simp

lemma pow2_int_bounds:
  assumes "2 ^ (k - 1) \<le> n \<and> n < (2::int) ^ k"
  shows "(2::rat) ^ (k - 1) \<le> rat_of_int n" "rat_of_int n + 1 \<le> 2 ^ k"
proof -
  have "rat_of_int (2 ^ (k - 1)) \<le> rat_of_int n" using assms by (simp only: of_int_le_iff)
  then show "(2::rat) ^ (k - 1) \<le> rat_of_int n" by simp
  have "n + 1 \<le> 2 ^ k" using assms by simp
  then have "rat_of_int (n + 1) \<le> rat_of_int (2 ^ k)" by (simp only: of_int_le_iff)
  then show "rat_of_int n + 1 \<le> 2 ^ k" by simp
qed

lemma ilog2_bounds_ge1:
  assumes "1 \<le> x"
  shows "power_int 2 (ilog2 x) \<le> x \<and> x < power_int 2 (ilog2 x + 1)"
proof -
  define n where "n = \<lfloor>x\<rfloor>"
  define k where "k = bitLength n"
  have n1: "0 < n" using assms by (simp add: n_def)
  have b: "2 ^ (k - 1) \<le> n \<and> n < 2 ^ k"
    using bitLength_bounds [OF n1] by (simp add: k_def)
  have k1: "1 \<le> k" using bitLength_pos [OF n1] by (simp add: k_def)
  have e: "ilog2 x = int k - 1" using assms by (simp add: ilog2_def k_def n_def)
  have nx: "rat_of_int n \<le> x" "x < rat_of_int n + 1"
    by (simp_all add: n_def) linarith
  have p1: "power_int (2::rat) (int k - 1) = 2 ^ (k - 1)"
    using k1 by (simp add: power_int_def nat_diff_distrib)
  have p2: "power_int (2::rat) (int k - 1 + 1) = 2 ^ k"
    by (simp add: power_int_def)
  show ?thesis using nx pow2_int_bounds [OF b] unfolding e p1 p2 by linarith
qed

lemma ilog2_bounds_lt1:
  assumes "0 < x" "x < 1"
  shows "power_int 2 (ilog2 x) \<le> x \<and> x < power_int 2 (ilog2 x + 1)"
proof -
  define N where "N = \<lceil>1 / x\<rceil>"
  define k where "k = bitLength (N - 1)"
  have ix: "1 < 1 / x" using assms by simp
  have N2: "2 \<le> N" using ix unfolding N_def by linarith
  then have n1: "0 < N - 1" by simp
  have b: "2 ^ (k - 1) \<le> N - 1 \<and> N - 1 < 2 ^ k"
    using bitLength_bounds [OF n1] by (simp add: k_def)
  have k1: "1 \<le> k" using bitLength_pos [OF n1] by (simp add: k_def)
  have e: "ilog2 x = - int k" using assms by (simp add: ilog2_def k_def N_def)
  have Nx: "1 / x \<le> of_int N" "of_int N - 1 < 1 / x"
    unfolding N_def by linarith+
  have rn: "rat_of_int (N - 1) = of_int N - 1" by simp
  note pb = pow2_int_bounds [OF b]
  have a1: "1 / x \<le> 2 ^ k" using Nx rn pb by linarith
  have a2: "(2::rat) ^ (k - 1) < 1 / x" using Nx rn pb by linarith
  have p1: "power_int (2::rat) (- int k) = inverse (2 ^ k)"
    by (simp only: power_int_minus power_int_of_nat)
  have "- int k + 1 = - int (k - 1)" using k1 by simp
  then have p2: "power_int (2::rat) (- int k + 1) = inverse (2 ^ (k - 1))"
    by (simp only: power_int_minus power_int_of_nat)
  have ix': "inverse x \<le> 2 ^ k" "(2::rat) ^ (k - 1) < inverse x"
    using a1 a2 by (simp_all only: inverse_eq_divide)
  have "inverse ((2::rat) ^ k) \<le> inverse (inverse x)"
    using ix'(1) assms(1) by (intro le_imp_inverse_le) simp_all
  then have q1: "inverse ((2::rat) ^ k) \<le> x" by simp
  have "inverse (inverse x) < inverse ((2::rat) ^ (k - 1))"
    using ix'(2) by (intro less_imp_inverse_less) simp_all
  then have q2: "x < inverse ((2::rat) ^ (k - 1))" by simp
  show ?thesis unfolding e p1 p2 using q1 q2 by simp
qed

lemma ilog2_bounds:
  assumes "0 < x"
  shows "power_int 2 (ilog2 x) \<le> x \<and> x < power_int 2 (ilog2 x + 1)"
  using ilog2_bounds_ge1 [of x] ilog2_bounds_lt1 [of x] assms by (cases "1 \<le> x") auto

lemma round_half_even_of_int: "round_half_even (of_int k) = k"
  by (simp add: round_half_even_def)

lemma round_half_even_range: "\<lfloor>x\<rfloor> \<le> round_half_even x \<and> round_half_even x \<le> \<lfloor>x\<rfloor> + 1"
  by (simp add: round_half_even_def Let_def)

lemma round_half_even_mono:
  assumes "x \<le> y" shows "round_half_even x \<le> round_half_even y"
proof (cases "\<lfloor>x\<rfloor> = \<lfloor>y\<rfloor>")
  case True
  then show ?thesis using assms by (auto simp: round_half_even_def Let_def)
next
  case False
  with assms have "\<lfloor>x\<rfloor> + 1 \<le> \<lfloor>y\<rfloor>" using floor_mono [OF assms] by linarith
  then show ?thesis using round_half_even_range [of x] round_half_even_range [of y] by linarith
qed

lemma fl_0: "fl 0 = 0"
  by (simp add: fl_def)

lemma fl_pos_eq:
  assumes "0 < x"
  shows "fl x = of_int (round_half_even (x / power_int 2 (ilog2 x - 52))) * power_int 2 (ilog2 x - 52)"
  using assms by (simp add: fl_def Let_def)

lemma fl_minus: "fl (- x) = - fl x"
  by (simp add: fl_def Let_def sgn_minus)

lemma pow2_split: "power_int (2::rat) e = 2 ^ 52 * power_int 2 (e - 52)"
proof -
  have "power_int (2::rat) (52 + (e - 52)) = power_int 2 52 * power_int 2 (e - 52)"
    by (rule power_int_add) simp
  then show ?thesis by simp
qed

lemma pow2_split': "power_int (2::rat) (e + 1) = 2 ^ 53 * power_int 2 (e - 52)"
proof -
  have "power_int (2::rat) (53 + (e - 52)) = power_int 2 53 * power_int 2 (e - 52)"
    by (rule power_int_add) simp
  moreover have "53 + (e - 52) = e + 1" by simp
  ultimately show ?thesis by simp
qed

lemma fl_pos_bounds:
  assumes "0 < x"
  shows "power_int 2 (ilog2 x) \<le> fl x \<and> fl x \<le> power_int 2 (ilog2 x + 1)"
proof -
  define u :: rat where "u = power_int 2 (ilog2 x - 52)"
  have u0: "0 < u" by (simp add: u_def)
  have lo: "2 ^ 52 * u \<le> x" and hi: "x < 2 ^ 53 * u"
    using ilog2_bounds [OF assms] pow2_split [of "ilog2 x"] pow2_split' [of "ilog2 x"]
    by (simp_all add: u_def)
  have "rat_of_int (2 ^ 52) \<le> x / u" using lo u0 by (simp add: pos_le_divide_eq)
  from round_half_even_mono [OF this]
  have m1: "2 ^ 52 \<le> round_half_even (x / u)" by (simp only: round_half_even_of_int)
  have "x / u \<le> rat_of_int (2 ^ 53)" using hi u0 by (simp add: pos_divide_le_eq)
  from round_half_even_mono [OF this]
  have m2: "round_half_even (x / u) \<le> 2 ^ 53" by (simp only: round_half_even_of_int)
  have "rat_of_int (2 ^ 52) \<le> of_int (round_half_even (x / u))" using m1 by (simp only: of_int_le_iff)
  then have r1: "2 ^ 52 * u \<le> of_int (round_half_even (x / u)) * u"
    using u0 by simp
  have "rat_of_int (round_half_even (x / u)) \<le> of_int (2 ^ 53)" using m2 by (simp only: of_int_le_iff)
  then have r2: "of_int (round_half_even (x / u)) * u \<le> 2 ^ 53 * u"
    using u0 by simp
  show ?thesis
    using r1 r2 unfolding fl_pos_eq [OF assms] pow2_split [of "ilog2 x"] pow2_split' [of "ilog2 x"] u_def
    by simp
qed

lemma fl_pos: "0 < x \<Longrightarrow> 0 < fl x"
proof -
  assume a: "0 < x"
  have "(0::rat) < power_int 2 (ilog2 x)" by simp
  then show ?thesis using fl_pos_bounds [OF a] by linarith
qed

lemma fl_mono_pos:
  assumes "0 < x" "x \<le> y"
  shows "fl x \<le> fl y"
proof -
  have y: "0 < y" using assms by simp
  show ?thesis
  proof (cases "ilog2 x = ilog2 y")
    case True
    define u :: rat where "u = power_int 2 (ilog2 y - 52)"
    have u0: "0 < u" by (simp add: u_def)
    have "x / u \<le> y / u" using assms u0 by (simp add: divide_right_mono)
    from round_half_even_mono [OF this]
    have "rat_of_int (round_half_even (x / u)) \<le> of_int (round_half_even (y / u))"
      by (simp only: of_int_le_iff)
    then have "of_int (round_half_even (x / u)) * u \<le> of_int (round_half_even (y / u)) * u"
      using u0 by simp
    then show ?thesis unfolding fl_pos_eq [OF assms(1)] fl_pos_eq [OF y] True u_def .
  next
    case False
    have "ilog2 x < ilog2 y"
    proof (rule ccontr)
      assume "\<not> ilog2 x < ilog2 y"
      with False have "ilog2 y + 1 \<le> ilog2 x" by simp
      then have "power_int (2::rat) (ilog2 y + 1) \<le> power_int 2 (ilog2 x)"
        by (intro power_int_increasing) simp_all
      then show False
        using ilog2_bounds [OF assms(1)] ilog2_bounds [OF y] assms(2) by linarith
    qed
    then have "ilog2 x + 1 \<le> ilog2 y" by simp
    then have "power_int (2::rat) (ilog2 x + 1) \<le> power_int 2 (ilog2 y)"
      by (intro power_int_increasing) simp_all
    then show ?thesis
      using fl_pos_bounds [OF assms(1)] fl_pos_bounds [OF y] by linarith
  qed
qed

lemma fl_mono:
  assumes "x \<le> y"
  shows "fl x \<le> fl y"
proof -
  consider "0 < x" | "x = 0" | "x < 0" "y < 0" | "x < 0" "y = 0" | "x < 0" "0 < y"
    by linarith
  then show ?thesis
  proof cases
    case 1
    then show ?thesis using fl_mono_pos assms by simp
  next
    case 2
    then show ?thesis
      using assms fl_pos [of y] by (cases "y = 0") (simp_all add: fl_0 less_imp_le)
  next
    case 3
    have "fl (- y) \<le> fl (- x)" using 3 assms by (intro fl_mono_pos) simp_all
    then show ?thesis by (simp add: fl_minus)
  next
    case 4
    have "0 < fl (- x)" using 4 by (intro fl_pos) simp
    then show ?thesis using 4 by (simp add: fl_minus fl_0)
  next
    case 5
    have "0 < fl (- x)" using 5 by (intro fl_pos) simp
    moreover have "0 < fl y" using 5 by (intro fl_pos)
    ultimately show ?thesis by (simp add: fl_minus)
  qed
qed

lemma fl_nonneg: "0 \<le> x \<Longrightarrow> 0 \<le> fl x"
  using fl_mono [of 0 x] by (simp add: fl_0)

lemma fl_neg: "x < 0 \<Longrightarrow> fl x < 0"
  using fl_pos [of "- x"] by (simp add: fl_minus)

text \<open>A value with a significand of at most 53 bits is not changed by rounding.\<close>

lemma fl_exact_pos:
  assumes x: "x = rat_of_int m * power_int 2 e" and m0: "0 < m" and m53: "m < 2 ^ 53"
  shows "fl x = x"
proof -
  have x0: "0 < x" using m0 by (simp add: x)
  define E where "E = ilog2 x"
  have "rat_of_int m < rat_of_int (2 ^ 53)" using m53 by (simp only: of_int_less_iff)
  then have "x < 2 ^ 53 * power_int 2 e" by (simp add: x)
  also have "\<dots> = power_int 2 (e + 53)"
  proof -
    have "power_int (2::rat) (53 + e) = power_int 2 53 * power_int 2 e"
      by (rule power_int_add) simp
    then show ?thesis by (simp add: add.commute)
  qed
  finally have "power_int 2 E < power_int (2::rat) (e + 53)"
    using ilog2_bounds [OF x0] by (simp add: E_def)
  have E: "E < e + 53"
  proof (rule ccontr)
    assume "\<not> E < e + 53"
    then have "e + 53 \<le> E" by simp
    then have "power_int (2::rat) (e + 53) \<le> power_int 2 E"
      by (intro power_int_increasing) simp_all
    with \<open>power_int 2 E < power_int (2::rat) (e + 53)\<close> show False by simp
  qed
  define d where "d = nat (e - (E - 52))"
  have d: "e = int d + (E - 52)" using E by (simp add: d_def)
  have "power_int (2::rat) (int d + (E - 52)) = power_int 2 (int d) * power_int 2 (E - 52)"
    by (rule power_int_add) simp
  then have pe: "power_int (2::rat) e = 2 ^ d * power_int 2 (E - 52)"
    using d by (simp only: power_int_of_nat)
  have u0: "power_int (2::rat) (E - 52) \<noteq> 0" by simp
  have q: "x / power_int 2 (E - 52) = rat_of_int (m * 2 ^ d)"
    using u0 by (simp add: x pe)
  have "fl x = of_int (round_half_even (x / power_int 2 (E - 52))) * power_int 2 (E - 52)"
    using fl_pos_eq [OF x0] by (simp add: E_def)
  also have "\<dots> = rat_of_int (m * 2 ^ d) * power_int 2 (E - 52)"
    by (simp only: q round_half_even_of_int)
  also have "\<dots> = x" by (simp add: x pe)
  finally show ?thesis .
qed

lemma fl_exact:
  assumes "x = rat_of_int m * power_int 2 e" and "\<bar>m\<bar> < 2 ^ 53"
  shows "fl x = x"
proof -
  consider "0 < m" | "m = 0" | "m < 0" by linarith
  then show ?thesis
  proof cases
    case 1
    then show ?thesis using fl_exact_pos [OF assms(1)] assms(2) by simp
  next
    case 2
    then show ?thesis using assms(1) by (simp add: fl_0)
  next
    case 3
    have "- x = rat_of_int (- m) * power_int 2 e" using assms(1) by simp
    from fl_exact_pos [OF this] 3 assms(2) have "fl (- x) = - x" by simp
    then show ?thesis by (simp add: fl_minus)
  qed
qed

lemma fl_of_int: "\<bar>n\<bar> < 2 ^ 53 \<Longrightarrow> fl (rat_of_int n) = of_int n"
  by (rule fl_exact [where e = 0]) simp_all

lemma grid_fl:
  assumes "0 \<le> x" "x * 2 ^ q \<in> \<int>" "x * 2 ^ q < 2 ^ 53"
  shows "fl x = x"
proof -
  from assms(2) obtain m :: int where m: "x * 2 ^ q = rat_of_int m" by (auto elim: Ints_cases)
  have p: "power_int (2::rat) (- int q) = 1 / 2 ^ q"
    by (simp add: power_int_minus inverse_eq_divide)
  have "x = x * 2 ^ q / 2 ^ q" by simp
  then have x: "x = rat_of_int m * power_int 2 (- int q)" by (simp only: m p) simp
  have "0 \<le> x * 2 ^ q" using assms(1) by simp
  then have "0 \<le> rat_of_int m" by (simp only: m)
  then have m0: "0 \<le> m" by simp
  have "rat_of_int m < rat_of_int (2 ^ 53)" using assms(3) m by simp
  then have "m < 2 ^ 53" by (simp only: of_int_less_iff)
  with m0 have "\<bar>m\<bar> < 2 ^ 53" by simp
  with x show ?thesis by (rule fl_exact)
qed

text \<open>
  The relative error of one rounding is at most \<open>2 ^ - 53\<close>; a rounded sum or difference
  of values bounded by \<open>E\<close> adds at most \<open>E / 2 ^ 51\<close> to the accumulated error.
\<close>

lemma round_half_even_err: "\<bar>rat_of_int (round_half_even y) - y\<bar> \<le> 1 / 2"
proof -
  have "rat_of_int \<lfloor>y\<rfloor> \<le> y" "y < rat_of_int \<lfloor>y\<rfloor> + 1" by linarith+
  then show ?thesis by (auto simp: round_half_even_def Let_def abs_le_iff)
qed

lemma fl_rel_err_pos:
  assumes "0 < x"
  shows "\<bar>fl x - x\<bar> \<le> x / 2 ^ 53"
proof -
  define u :: rat where "u = power_int 2 (ilog2 x - 52)"
  have u0: "0 < u" by (simp add: u_def)
  have lo: "2 ^ 52 * u \<le> x"
    using ilog2_bounds [OF assms] pow2_split [of "ilog2 x"] by (simp add: u_def)
  have "fl x - x = (rat_of_int (round_half_even (x / u)) - x / u) * u"
    using u0 by (simp add: fl_pos_eq [OF assms] u_def [symmetric] left_diff_distrib)
  then have "\<bar>fl x - x\<bar> = \<bar>rat_of_int (round_half_even (x / u)) - x / u\<bar> * u"
    using u0 by (simp add: abs_mult)
  also have "\<dots> \<le> 1 / 2 * u"
    using round_half_even_err [of "x / u"] u0 by (intro mult_right_mono) simp_all
  also have "\<dots> \<le> x / 2 ^ 53"
    using lo by simp
  finally show ?thesis .
qed

lemma fl_rel_err: "\<bar>fl x - x\<bar> \<le> \<bar>x\<bar> / 2 ^ 53"
proof -
  consider "0 < x" | "x = 0" | "x < 0" by linarith
  then show ?thesis
  proof cases
    case 1
    then show ?thesis using fl_rel_err_pos [of x] by simp
  next
    case 2
    then show ?thesis by (simp add: fl_0)
  next
    case 3
    then have "\<bar>fl (- x) - (- x)\<bar> \<le> (- x) / 2 ^ 53" by (intro fl_rel_err_pos) simp
    then show ?thesis using 3 by (simp add: fl_minus abs_minus_commute)
  qed
qed

lemma fl_step:
  assumes err: "\<bar>z - x\<bar> \<le> of_nat m * E / 2 ^ 51"
    and x: "0 \<le> x" "x \<le> E" and m: "m \<le> 2 ^ 52"
  shows "\<bar>fl z - x\<bar> \<le> of_nat (Suc m) * E / 2 ^ 51"
proof -
  have E0: "0 \<le> E" using x by simp
  have "rat_of_nat m \<le> rat_of_nat (2 ^ 52)" using m by (simp only: of_nat_le_iff)
  then have "rat_of_nat m * E \<le> 2 ^ 52 * E" using E0 by (intro mult_right_mono) simp_all
  then have me: "rat_of_nat m * E / 2 ^ 51 \<le> 2 * E" by simp
  have "\<bar>z\<bar> \<le> \<bar>x\<bar> + \<bar>z - x\<bar>" by simp
  then have "\<bar>z\<bar> \<le> 3 * E" using err me x by simp
  then have "\<bar>fl z - z\<bar> \<le> 3 * E / 2 ^ 53"
    using fl_rel_err [of z] by simp
  then have "\<bar>fl z - z\<bar> \<le> E / 2 ^ 51" using E0 by simp
  moreover have "\<bar>fl z - x\<bar> \<le> \<bar>fl z - z\<bar> + \<bar>z - x\<bar>" by simp
  ultimately have "\<bar>fl z - x\<bar> \<le> E / 2 ^ 51 + of_nat m * E / 2 ^ 51" using err by simp
  then show ?thesis by (simp add: field_simps)
qed

lemma fadd_mono: "a \<le> b \<Longrightarrow> c \<le> d \<Longrightarrow> fadd a c \<le> fadd b d"
  by (simp add: fadd_def fl_mono add_mono)

lemma fmul_mono: "0 \<le> w \<Longrightarrow> a \<le> b \<Longrightarrow> fmul (of_int a) w \<le> fmul (of_int b) w"
  by (simp add: fmul_def fl_mono mult_right_mono)

lemma weights_nonneg:
  "0 \<le> deadline weights" "0 \<le> impact weights"
  "0 \<le> dependency weights" "0 \<le> complexity weights"
  by (simp_all add: weights_def fl_nonneg)

lemma weightedSum_mono:
  assumes "deadline f \<le> deadline g" "impact f \<le> impact g"
    "dependency f \<le> dependency g" "complexity f \<le> complexity g"
  shows "weightedSum f \<le> weightedSum g"
  unfolding weightedSum_def
  by (intro fadd_mono fmul_mono weights_nonneg assms)

text \<open>The weighted sums that the examples need, evaluated.\<close>

lemma weightedSum_2222:
  "weightedSum \<lparr>deadline = 2, impact = 2, dependency = 2, complexity = 2\<rparr> = 2 - 1 / 2 ^ 52"
  unfolding weightedSum_def weights_def by code_simp

lemma weightedSum_9652:
  "weightedSum \<lparr>deadline = 9, impact = 6, dependency = 5, complexity = 2\<rparr>
   = 7430939385161319 / 1125899906842624"
  unfolding weightedSum_def weights_def by code_simp


section \<open>The deadline sub-score\<close>

text \<open>
  The days remaining are computed in binary64: a rounded difference of two time values,
  divided by the milliseconds of a day and rounded again. Time values are whole
  milliseconds, so neither rounding moves the quotient across 0 or across one of the
  thresholds 1, 3, 7, 14 and 30.
\<close>

lemma days_negative_iff: "daysUntilDue now due < 0 \<longleftrightarrow> due < now"
proof
  assume "due < now"
  then have "rat_of_int due - of_int now < 0" by simp
  then have "fl (rat_of_int due - of_int now) / msPerDay < 0"
    using fl_neg by (simp add: msPerDay_def)
  then show "daysUntilDue now due < 0"
    unfolding daysUntilDue_def fdiv_def fsub_def by (rule fl_neg)
next
  assume a: "daysUntilDue now due < 0"
  show "due < now"
  proof (rule ccontr)
    assume "\<not> due < now"
    then have "0 \<le> rat_of_int due - of_int now" by simp
    then have "0 \<le> fl (rat_of_int due - of_int now) / msPerDay"
      using fl_nonneg by (simp add: msPerDay_def)
    then have "0 \<le> daysUntilDue now due"
      unfolding daysUntilDue_def fdiv_def fsub_def by (rule fl_nonneg)
    with a show False by simp
  qed
qed

lemma days_le_iff:
  fixes k :: int
  assumes k: "0 \<le> k" "k \<le> 30"
  shows "daysUntilDue now due \<le> of_int k \<longleftrightarrow> due - now \<le> k * 86400000"
proof -
  define D where "D = due - now"
  have dd: "daysUntilDue now due = fl (fl (rat_of_int D) / 86400000)"
    by (simp add: daysUntilDue_def fdiv_def fsub_def msPerDay_def D_def)
  have e1: "fl (rat_of_int (k * 86400000)) = of_int (k * 86400000)"
    using k by (intro fl_of_int) simp
  have e2: "fl (rat_of_int k) = of_int k"
    using k by (intro fl_of_int) simp
  have e3: "fl (rat_of_int (k * 86400000 + 1)) = of_int (k * 86400000 + 1)"
    using k by (intro fl_of_int) simp
  have g: "fl (rat_of_int (k * 2 ^ 27 + 1) * power_int 2 (- 27))
           = rat_of_int (k * 2 ^ 27 + 1) * power_int 2 (- 27)"
    using k by (intro fl_exact [where m = "k * 2 ^ 27 + 1" and e = "- 27"]) simp_all
  have p27: "power_int (2::rat) (- 27) = 1 / 134217728"
    by (simp add: power_int_minus inverse_eq_divide)
  have "rat_of_int (k * 2 ^ 27 + 1) * power_int 2 (- 27)
        \<le> rat_of_int (k * 86400000 + 1) / 86400000"
    unfolding p27 by (simp add: field_simps)
  from fl_mono [OF this] have "rat_of_int (k * 2 ^ 27 + 1) * power_int 2 (- 27)
        \<le> fl (rat_of_int (k * 86400000 + 1) / 86400000)" by (simp only: g)
  moreover have "rat_of_int k < rat_of_int (k * 2 ^ 27 + 1) * power_int 2 (- 27)"
    unfolding p27 by (simp add: field_simps)
  ultimately have e4: "rat_of_int k < fl (rat_of_int (k * 86400000 + 1) / 86400000)"
    by linarith
  have "fl (fl (rat_of_int D) / 86400000) \<le> of_int k \<longleftrightarrow> D \<le> k * 86400000"
  proof
    assume "D \<le> k * 86400000"
    then have "rat_of_int D \<le> rat_of_int (k * 86400000)" by (simp only: of_int_le_iff)
    from fl_mono [OF this] have "fl (rat_of_int D) \<le> of_int (k * 86400000)" by (simp only: e1)
    then have "fl (rat_of_int D) / 86400000 \<le> rat_of_int k" by simp
    from fl_mono [OF this] show "fl (fl (rat_of_int D) / 86400000) \<le> of_int k" by (simp only: e2)
  next
    assume a: "fl (fl (rat_of_int D) / 86400000) \<le> of_int k"
    show "D \<le> k * 86400000"
    proof (rule ccontr)
      assume "\<not> D \<le> k * 86400000"
      then have "k * 86400000 + 1 \<le> D" by simp
      then have "rat_of_int (k * 86400000 + 1) \<le> rat_of_int D" by (simp only: of_int_le_iff)
      from fl_mono [OF this] have "rat_of_int (k * 86400000 + 1) \<le> fl (rat_of_int D)" by (simp only: e3)
      then have "rat_of_int (k * 86400000 + 1) / 86400000 \<le> fl (rat_of_int D) / 86400000"
        by (simp add: divide_right_mono)
      from fl_mono [OF this] e4 a show False by linarith
    qed
  qed
  then show ?thesis by (simp only: dd D_def)
qed

lemma exact_days_negative_iff:
  "(rat_of_int due - rat_of_int now) / msPerDay < 0 \<longleftrightarrow> due < now"
  by (simp add: msPerDay_def divide_less_0_iff)

lemma exact_days_le_iff:
  "(rat_of_int due - rat_of_int now) / msPerDay \<le> rat_of_int k \<longleftrightarrow> due - now \<le> k * 86400000"
proof -
  have "(rat_of_int due - rat_of_int now) / msPerDay \<le> rat_of_int k
        \<longleftrightarrow> rat_of_int (due - now) \<le> rat_of_int (k * 86400000)"
    by (simp add: msPerDay_def pos_divide_le_eq)
  then show ?thesis by (simp only: of_int_le_iff)
qed

lemma days_thresholds:
  "daysUntilDue now due < 0 \<longleftrightarrow> (rat_of_int due - rat_of_int now) / msPerDay < 0"
  "daysUntilDue now due \<le> 1 \<longleftrightarrow> (rat_of_int due - rat_of_int now) / msPerDay \<le> 1"
  "daysUntilDue now due \<le> 3 \<longleftrightarrow> (rat_of_int due - rat_of_int now) / msPerDay \<le> 3"
  "daysUntilDue now due \<le> 7 \<longleftrightarrow> (rat_of_int due - rat_of_int now) / msPerDay \<le> 7"
  "daysUntilDue now due \<le> 14 \<longleftrightarrow> (rat_of_int due - rat_of_int now) / msPerDay \<le> 14"
  "daysUntilDue now due \<le> 30 \<longleftrightarrow> (rat_of_int due - rat_of_int now) / msPerDay \<le> 30"
  using days_le_iff [of 1 now due] exact_days_le_iff [of due now 1]
    days_le_iff [of 3 now due] exact_days_le_iff [of due now 3]
    days_le_iff [of 7 now due] exact_days_le_iff [of due now 7]
    days_le_iff [of 14 now due] exact_days_le_iff [of due now 14]
    days_le_iff [of 30 now due] exact_days_le_iff [of due now 30]
  by (simp_all add: days_negative_iff exact_days_negative_iff)

lemma getDeadlineScore_exact_days:
  assumes "s \<noteq> []" "parse s = Some due"
  shows "getDeadlineScore parse now (Some s) =
        (let days = (rat_of_int due - rat_of_int now) / msPerDay
         in if days < 0 then 10
            else if days \<le> 1 then 9
            else if days \<le> 3 then 8
            else if days \<le> 7 then 6
            else if days \<le> 14 then 4
            else if days \<le> 30 then 3
            else 2)"
  using assms by (simp add: getDeadlineScore_def Let_def days_thresholds)

text \<open>
  C3. The deadline sub-score is 2 when there is no due date (absent, or the empty string).
  For a due date that the host parses, with days remaining the exact quotient of due date
  minus now by the length of a day, it is 10 when the days remaining are negative,
  otherwise 9 if at most 1 day, 8 if at most 3, 6 if at most 7, 4 if at most 14, 3 if at
  most 30, and 2 beyond that, the first matching rule winning. A due date that the host
  cannot parse scores 2, as the last rule.
\<close>

theorem getDeadlineScore_rules:
  "getDeadlineScore parse now None = 2
   \<and> getDeadlineScore parse now (Some []) = 2
   \<and> (s \<noteq> [] \<and> parse s = None \<longrightarrow> getDeadlineScore parse now (Some s) = 2)
   \<and> (s \<noteq> [] \<and> parse s = Some due \<longrightarrow>
        getDeadlineScore parse now (Some s) =
          (let days = (rat_of_int due - rat_of_int now) / msPerDay
           in if days < 0 then 10
              else if days \<le> 1 then 9
              else if days \<le> 3 then 8
              else if days \<le> 7 then 6
              else if days \<le> 14 then 4
              else if days \<le> 30 then 3
              else 2))"
proof (intro conjI impI)
  show "getDeadlineScore parse now None = 2" "getDeadlineScore parse now (Some []) = 2"
    by (simp_all add: getDeadlineScore_def)
next
  assume "s \<noteq> [] \<and> parse s = None"
  then show "getDeadlineScore parse now (Some s) = 2"
    by (simp add: getDeadlineScore_def)
next
  assume "s \<noteq> [] \<and> parse s = Some due"
  then show "getDeadlineScore parse now (Some s) =
          (let days = (rat_of_int due - rat_of_int now) / msPerDay
           in if days < 0 then 10
              else if days \<le> 1 then 9
              else if days \<le> 3 then 8
              else if days \<le> 7 then 6
              else if days \<le> 14 then 4
              else if days \<le> 30 then 3
              else 2)"
    using getDeadlineScore_exact_days [of s parse due now] by blast
qed

theorem getDeadlineScore_rules_witness:
  "''soon'' \<noteq> [] \<and> exampleParse ''soon'' = None
   \<and> getDeadlineScore exampleParse 1764763200000 (Some ''soon'') = 2
   \<and> ''2025-12-04'' \<noteq> [] \<and> exampleParse ''2025-12-04'' = Some 1764806400000
   \<and> getDeadlineScore exampleParse 1764763200000 (Some ''2025-12-04'') = 9"
proof -
  have h1: "''soon'' \<noteq> [] \<and> exampleParse ''soon'' = None"
    by (simp add: exampleParse_def)
  have h2: "''2025-12-04'' \<noteq> [] \<and> exampleParse ''2025-12-04'' = Some 1764806400000"
    by (simp add: exampleParse_def)
  have r1: "getDeadlineScore exampleParse 1764763200000 (Some ''soon'') = 2"
    using getDeadlineScore_rules [of exampleParse 1764763200000 "''soon''"] h1 by blast
  have r2: "getDeadlineScore exampleParse 1764763200000 (Some ''2025-12-04'') = 9"
    using getDeadlineScore_rules [of exampleParse 1764763200000 "''2025-12-04''" 1764806400000] h2
    by (simp add: msPerDay_def)
  show ?thesis using h1 h2 r1 r2 by blast
qed

section \<open>The impact sub-score\<close>








section \<open>The urgency score\<close>

text \<open>
  C2. For every task, the urgency score returned by \<open>calculateUrgencyScore\<close> is
  0.40 * deadline + 0.30 * impact + 0.20 * dependency + 0.10 * complexity, where the four
  factors are the sub-scores computed for that task and are the factors of the result. The
  arithmetic is the source's: binary64 weights, products and sums, added from the left.
\<close>

theorem calculateUrgencyScore_weighted_sum:
  "urgencyScore (calculateUrgencyScore parse now t) =
     fadd (fadd (fadd (fmul (fl (40/100)) (of_int (getDeadlineScore parse now (due_date t))))
                      (fmul (fl (30/100)) (of_int (getImpactScore t))))
                (fmul (fl (20/100)) (of_int (getDependencyScore t))))
          (fmul (fl (10/100)) (of_int (getComplexityScore (estimated_hours t))))
   \<and> factors (calculateUrgencyScore parse now t) =
       \<lparr> deadline = getDeadlineScore parse now (due_date t),
         impact = getImpactScore t,
         dependency = getDependencyScore t,
         complexity = getComplexityScore (estimated_hours t) \<rparr>"
  by (simp add: calculateUrgencyScore_def weightedSum_def getUrgencyFactors_def weights_def
      fmul_def mult.commute Let_def)

text \<open>
  C8. Of two factor assignments that agree on impact, dependency and complexity, the one
  with the greater or equal deadline factor has the greater or equal weighted sum; and of
  two tasks that agree on the impact, dependency and complexity sub-scores, the one with
  the greater or equal deadline sub-score receives the greater or equal urgency score. The
  weighted sum is monotonically non-decreasing in the deadline factor, rounding included.
\<close>

theorem urgencyScore_monotone_in_deadline:
  "(impact f = impact g \<and> dependency f = dependency g \<and> complexity f = complexity g
      \<and> deadline f \<le> deadline g
    \<longrightarrow> weightedSum f \<le> weightedSum g)
   \<and> (getImpactScore t1 = getImpactScore t2
      \<and> getDependencyScore t1 = getDependencyScore t2
      \<and> getComplexityScore (estimated_hours t1) = getComplexityScore (estimated_hours t2)
      \<and> getDeadlineScore parse1 now1 (due_date t1) \<le> getDeadlineScore parse2 now2 (due_date t2)
    \<longrightarrow> urgencyScore (calculateUrgencyScore parse1 now1 t1)
        \<le> urgencyScore (calculateUrgencyScore parse2 now2 t2))"
proof (intro conjI impI)
  assume "impact f = impact g \<and> dependency f = dependency g \<and> complexity f = complexity g
      \<and> deadline f \<le> deadline g"
  then show "weightedSum f \<le> weightedSum g"
    by (intro weightedSum_mono) simp_all
next
  assume "getImpactScore t1 = getImpactScore t2
      \<and> getDependencyScore t1 = getDependencyScore t2
      \<and> getComplexityScore (estimated_hours t1) = getComplexityScore (estimated_hours t2)
      \<and> getDeadlineScore parse1 now1 (due_date t1) \<le> getDeadlineScore parse2 now2 (due_date t2)"
  then show "urgencyScore (calculateUrgencyScore parse1 now1 t1)
        \<le> urgencyScore (calculateUrgencyScore parse2 now2 t2)"
    by (simp add: calculateUrgencyScore_def Let_def getUrgencyFactors_def weightedSum_mono)
qed

theorem urgencyScore_monotone_in_deadline_witness:
  "impact \<lparr>deadline = 2, impact = 6, dependency = 5, complexity = 3 :: int\<rparr>
     = impact \<lparr>deadline = 9, impact = 6, dependency = 5, complexity = 3 :: int\<rparr>
   \<and> dependency \<lparr>deadline = 2, impact = 6, dependency = 5, complexity = 3 :: int\<rparr>
     = dependency \<lparr>deadline = 9, impact = 6, dependency = 5, complexity = 3 :: int\<rparr>
   \<and> complexity \<lparr>deadline = 2, impact = 6, dependency = 5, complexity = 3 :: int\<rparr>
     = complexity \<lparr>deadline = 9, impact = 6, dependency = 5, complexity = 3 :: int\<rparr>
   \<and> deadline \<lparr>deadline = 2, impact = 6, dependency = 5, complexity = 3 :: int\<rparr>
     \<le> deadline \<lparr>deadline = 9, impact = 6, dependency = 5, complexity = 3 :: int\<rparr>
   \<and> weightedSum \<lparr>deadline = 2, impact = 6, dependency = 5, complexity = 3\<rparr>
     \<le> weightedSum \<lparr>deadline = 9, impact = 6, dependency = 5, complexity = 3\<rparr>
   \<and> getImpactScore (exampleTask 1 admin None None)
     = getImpactScore (exampleTask 2 admin None (Some ''2025-12-04''))
   \<and> getDependencyScore (exampleTask 1 admin None None)
     = getDependencyScore (exampleTask 2 admin None (Some ''2025-12-04''))
   \<and> getComplexityScore (estimated_hours (exampleTask 1 admin None None))
     = getComplexityScore (estimated_hours (exampleTask 2 admin None (Some ''2025-12-04'')))
   \<and> getDeadlineScore exampleParse 1764763200000 (due_date (exampleTask 1 admin None None))
     \<le> getDeadlineScore exampleParse 1764763200000
         (due_date (exampleTask 2 admin None (Some ''2025-12-04'')))
   \<and> urgencyScore (calculateUrgencyScore exampleParse 1764763200000 (exampleTask 1 admin None None))
     \<le> urgencyScore (calculateUrgencyScore exampleParse 1764763200000
         (exampleTask 2 admin None (Some ''2025-12-04'')))"
proof -
  have f: "impact \<lparr>deadline = 2, impact = 6, dependency = 5, complexity = 3 :: int\<rparr>
     = impact \<lparr>deadline = 9, impact = 6, dependency = 5, complexity = 3 :: int\<rparr>
   \<and> dependency \<lparr>deadline = 2, impact = 6, dependency = 5, complexity = 3 :: int\<rparr>
     = dependency \<lparr>deadline = 9, impact = 6, dependency = 5, complexity = 3 :: int\<rparr>
   \<and> complexity \<lparr>deadline = 2, impact = 6, dependency = 5, complexity = 3 :: int\<rparr>
     = complexity \<lparr>deadline = 9, impact = 6, dependency = 5, complexity = 3 :: int\<rparr>
   \<and> deadline \<lparr>deadline = 2, impact = 6, dependency = 5, complexity = 3 :: int\<rparr>
     \<le> deadline \<lparr>deadline = 9, impact = 6, dependency = 5, complexity = 3 :: int\<rparr>"
    by simp
  have h1: "getImpactScore (exampleTask 1 admin None None)
     = getImpactScore (exampleTask 2 admin None (Some ''2025-12-04''))"
    by (simp add: getImpactScore_def exampleTask_def)
  have h2: "getDependencyScore (exampleTask 1 admin None None)
     = getDependencyScore (exampleTask 2 admin None (Some ''2025-12-04''))"
    by (simp add: getDependencyScore_def exampleTask_def)
  have h3: "getComplexityScore (estimated_hours (exampleTask 1 admin None None))
     = getComplexityScore (estimated_hours (exampleTask 2 admin None (Some ''2025-12-04'')))"
    by (simp add: exampleTask_def)
  have "getDeadlineScore exampleParse 1764763200000
         (due_date (exampleTask 2 admin None (Some ''2025-12-04''))) = 9"
    using getDeadlineScore_exact_days [of "''2025-12-04''" exampleParse 1764806400000 1764763200000]
    by (simp add: exampleTask_def exampleParse_def msPerDay_def)
  then have h4: "getDeadlineScore exampleParse 1764763200000 (due_date (exampleTask 1 admin None None))
     \<le> getDeadlineScore exampleParse 1764763200000
         (due_date (exampleTask 2 admin None (Some ''2025-12-04'')))"
    by (simp add: exampleTask_def getDeadlineScore_def)
  show ?thesis
    using urgencyScore_monotone_in_deadline
        [of "\<lparr>deadline = 2, impact = 6, dependency = 5, complexity = 3\<rparr>"
          "\<lparr>deadline = 9, impact = 6, dependency = 5, complexity = 3\<rparr>"
          "exampleTask 1 admin None None" "exampleTask 2 admin None (Some ''2025-12-04'')"
          exampleParse 1764763200000 exampleParse 1764763200000]
      f h1 h2 h3 h4
    by blast
qed

lemma urgencyScore_is_weightedSum:
  "urgencyScore (calculateUrgencyScore parse now t)
   = weightedSum (factors (calculateUrgencyScore parse now t))"
  by (simp add: calculateUrgencyScore_def Let_def)

lemma example_due_within_a_day:
  assumes "category t = exhibition" "estimated_hours t = Some 2" "due_date t = Some s"
    and "s \<noteq> []" "parse s = Some due" "now \<le> due" "due \<le> now + 86400000"
  shows "factors (calculateUrgencyScore parse now t)
         = \<lparr>deadline = 9, impact = 6, dependency = 5, complexity = 2\<rparr>"
    and "urgencyScore (calculateUrgencyScore parse now t)
         = 7430939385161319 / 1125899906842624"
proof -
  have d: "getDeadlineScore parse now (due_date t) = 9"
    using assms getDeadlineScore_exact_days [of s parse due now]
    by (simp add: Let_def exact_days_negative_iff exact_days_le_iff [of due now 1, simplified])
  show f: "factors (calculateUrgencyScore parse now t)
          = \<lparr>deadline = 9, impact = 6, dependency = 5, complexity = 2\<rparr>"
    using assms(1,2) d
    by (simp add: calculateUrgencyScore_def Let_def getUrgencyFactors_def
        getImpactScore_def getDependencyScore_def getComplexityScore_def orDefault_def)
  show "urgencyScore (calculateUrgencyScore parse now t)
          = 7430939385161319 / 1125899906842624"
    by (simp only: urgencyScore_is_weightedSum f weightedSum_9652)
qed

lemma example_bare_admin:
  assumes "category t = admin" "estimated_hours t = None" "due_date t = None"
  shows "factors (calculateUrgencyScore parse now t)
         = \<lparr>deadline = 2, impact = 2, dependency = 2, complexity = 2\<rparr>"
    and "urgencyScore (calculateUrgencyScore parse now t) = 2 - 1 / 2 ^ 52"
proof -
  show f: "factors (calculateUrgencyScore parse now t)
          = \<lparr>deadline = 2, impact = 2, dependency = 2, complexity = 2\<rparr>"
    using assms
    by (simp add: calculateUrgencyScore_def Let_def getUrgencyFactors_def
        getImpactScore_def getDependencyScore_def getComplexityScore_def orDefault_def
        getDeadlineScore_def)
  show "urgencyScore (calculateUrgencyScore parse now t) = 2 - 1 / 2 ^ 52"
    by (simp only: urgencyScore_is_weightedSum f weightedSum_2222)
qed

text \<open>
  C7, as stated, fails. For the exhibition task of 2 hours whose due date lies half a day
  ahead, the complexity sub-score is 2, since 2 hours are not more than 2, and the urgency
  score is below 6.7. Scored during the day of its date-only due date, which the host
  parses as midnight UTC of that day, the same task is overdue and its deadline sub-score
  is 10. For the admin task with no due date and no hours, the urgency score is below 2:
  the binary64 sum of the four products is the value just under 2.
\<close>

theorem urgency_examples_counterexample:
  "complexity (factors (calculateUrgencyScore exampleParse 1764763200000
       (exampleTask 1 exhibition (Some 2) (Some ''2025-12-04'')))) = 2
   \<and> urgencyScore (calculateUrgencyScore exampleParse 1764763200000
       (exampleTask 1 exhibition (Some 2) (Some ''2025-12-04''))) < 67 / 10
   \<and> deadline (factors (calculateUrgencyScore exampleParse 1764838800000
       (exampleTask 1 exhibition (Some 2) (Some ''2025-12-04'')))) = 10
   \<and> urgencyScore (calculateUrgencyScore exampleParse 1764763200000
       (exampleTask 2 admin None None)) < 2"
proof -
  have "factors (calculateUrgencyScore exampleParse 1764763200000
          (exampleTask 1 exhibition (Some 2) (Some ''2025-12-04'')))
        = \<lparr>deadline = 9, impact = 6, dependency = 5, complexity = 2\<rparr>"
    by (rule example_due_within_a_day [where s = "''2025-12-04''" and due = 1764806400000])
      (simp_all add: exampleTask_def exampleParse_def)
  moreover have "urgencyScore (calculateUrgencyScore exampleParse 1764763200000
          (exampleTask 1 exhibition (Some 2) (Some ''2025-12-04'')))
        = 7430939385161319 / 1125899906842624"
    by (rule example_due_within_a_day [where s = "''2025-12-04''" and due = 1764806400000])
      (simp_all add: exampleTask_def exampleParse_def)
  moreover have "deadline (factors (calculateUrgencyScore exampleParse 1764838800000
          (exampleTask 1 exhibition (Some 2) (Some ''2025-12-04'')))) = 10"
    using getDeadlineScore_exact_days [of "''2025-12-04''" exampleParse 1764806400000 1764838800000]
    by (simp add: calculateUrgencyScore_def Let_def getUrgencyFactors_def exampleTask_def
        exampleParse_def msPerDay_def)
  moreover have "urgencyScore (calculateUrgencyScore exampleParse 1764763200000
          (exampleTask 2 admin None None)) = 2 - 1 / 2 ^ 52"
    by (rule example_bare_admin) (simp_all add: exampleTask_def)
  ultimately show ?thesis by simp
qed

text \<open>
  C7, amended. For an exhibition task of 2 hours whose due date the host parses to an
  instant from now to one day ahead, the scorer yields the factors deadline 9, impact 6,
  dependency 5 and complexity 2, and the urgency score is the binary64 value of
  0.4 * 9 + 0.3 * 6 + 0.2 * 5 + 0.1 * 2, printed 6.6000000000000005. For a task with no due
  date, no hours and category admin, all four factors are 2 and the urgency score is the
  binary64 value just under 2, printed 1.9999999999999998.
\<close>

theorem urgency_examples:
  "(category t = exhibition \<and> estimated_hours t = Some 2 \<and> due_date t = Some s \<and> s \<noteq> []
      \<and> parse s = Some due \<and> now \<le> due \<and> due \<le> now + 86400000
    \<longrightarrow> factors (calculateUrgencyScore parse now t)
          = \<lparr>deadline = 9, impact = 6, dependency = 5, complexity = 2\<rparr>
        \<and> urgencyScore (calculateUrgencyScore parse now t)
          = 7430939385161319 / 1125899906842624)
   \<and> (category t = admin \<and> estimated_hours t = None \<and> due_date t = None
    \<longrightarrow> factors (calculateUrgencyScore parse now t)
          = \<lparr>deadline = 2, impact = 2, dependency = 2, complexity = 2\<rparr>
        \<and> urgencyScore (calculateUrgencyScore parse now t) = 2 - 1 / 2 ^ 52)"
  using example_due_within_a_day [of t s parse due now] example_bare_admin [of t parse now]
  by blast

theorem urgency_examples_witness:
  "category (exampleTask 1 exhibition (Some 2) (Some ''2025-12-04'')) = exhibition
   \<and> estimated_hours (exampleTask 1 exhibition (Some 2) (Some ''2025-12-04'')) = Some 2
   \<and> due_date (exampleTask 1 exhibition (Some 2) (Some ''2025-12-04'')) = Some ''2025-12-04''
   \<and> ''2025-12-04'' \<noteq> []
   \<and> exampleParse ''2025-12-04'' = Some 1764806400000
   \<and> (1764763200000 :: int) \<le> 1764806400000
   \<and> (1764806400000 :: int) \<le> 1764763200000 + 86400000
   \<and> factors (calculateUrgencyScore exampleParse 1764763200000
         (exampleTask 1 exhibition (Some 2) (Some ''2025-12-04'')))
       = \<lparr>deadline = 9, impact = 6, dependency = 5, complexity = 2\<rparr>
   \<and> urgencyScore (calculateUrgencyScore exampleParse 1764763200000
         (exampleTask 1 exhibition (Some 2) (Some ''2025-12-04'')))
       = 7430939385161319 / 1125899906842624
   \<and> category (exampleTask 2 admin None None) = admin
   \<and> estimated_hours (exampleTask 2 admin None None) = None
   \<and> due_date (exampleTask 2 admin None None) = None
   \<and> factors (calculateUrgencyScore exampleParse 1764763200000 (exampleTask 2 admin None None))
       = \<lparr>deadline = 2, impact = 2, dependency = 2, complexity = 2\<rparr>
   \<and> urgencyScore (calculateUrgencyScore exampleParse 1764763200000
         (exampleTask 2 admin None None)) = 2 - 1 / 2 ^ 52"
proof -
  have h1: "category (exampleTask 1 exhibition (Some 2) (Some ''2025-12-04'')) = exhibition
    \<and> estimated_hours (exampleTask 1 exhibition (Some 2) (Some ''2025-12-04'')) = Some 2
    \<and> due_date (exampleTask 1 exhibition (Some 2) (Some ''2025-12-04'')) = Some ''2025-12-04''
    \<and> ''2025-12-04'' \<noteq> []
    \<and> exampleParse ''2025-12-04'' = Some 1764806400000
    \<and> (1764763200000 :: int) \<le> 1764806400000
    \<and> (1764806400000 :: int) \<le> 1764763200000 + 86400000"
    by (simp add: exampleTask_def exampleParse_def)
  have h2: "category (exampleTask 2 admin None None) = admin
    \<and> estimated_hours (exampleTask 2 admin None None) = None
    \<and> due_date (exampleTask 2 admin None None) = None"
    by (simp add: exampleTask_def)
  show ?thesis
    using urgency_examples [of "exampleTask 1 exhibition (Some 2) (Some ''2025-12-04'')"
        "''2025-12-04''" exampleParse 1764806400000 1764763200000]
      urgency_examples [of "exampleTask 2 admin None None" "[]" exampleParse 0 1764763200000]
      h1 h2
    by blast
qed


lemma getImpactScore_range: "getImpactScore t \<in> {2, 3, 4, 5, 6, 7, 8}"
  by (cases "category t"; cases "estimated_hours t")
    (simp_all add: getImpactScore_def orDefault_def Let_def)

lemma getDependencyScore_range: "getDependencyScore t \<in> {2, 5}"
  by (simp add: getDependencyScore_def)











section \<open>Top priority tasks\<close>

lemma scoreEach_length: "length (scoreEach parse clock k ts) = length ts"
  by (induction ts arbitrary: k) simp_all

lemma scoreEach_task: "map task (scoreEach parse clock k ts) = ts"
  by (induction ts arbitrary: k) (simp_all add: calculateUrgencyScore_def Let_def)


lemma sortByUrgency_length: "length (sortByUrgency rs) = length rs"
  by (simp add: sortByUrgency_def)


lemma top_length:
  "length (calculateTopPriorityTasks parse clock ts) = min 3 (length (filter eligible ts))"
  by (simp add: calculateTopPriorityTasks_def Let_def sortByUrgency_length scoreEach_length
      min.commute)



section \<open>The daily schedule\<close>

lemma distribute_tasks:
  "distribute ts (m, a, e) =
     (m\<lparr>tasks := tasks m @ filter (\<lambda>t. isCreative t \<and> isComplex t) ts\<rparr>,
      a\<lparr>tasks := tasks a @ filter (\<lambda>t. \<not> (isCreative t \<and> isComplex t)
                                   \<and> (category t = education \<or> category t = publication)) ts\<rparr>,
      e\<lparr>tasks := tasks e @ filter (\<lambda>t. \<not> (isCreative t \<and> isComplex t)
                                   \<and> \<not> (category t = education \<or> category t = publication)) ts\<rparr>)"
  by (induction ts arbitrary: m a e) (simp_all add: pushTask_def)

lemma balanceLoop_prefix: "prefix (fst (balanceLoop ts tot)) ts"
proof (induction ts tot rule: balanceLoop.induct)
  case (1 ts totalHours)
  show ?case
  proof (cases "totalHours > maxHoursPerSlot \<and> length ts > 1")
    case True
    then have "prefix (fst (balanceLoop (butlast ts) (fsub totalHours (hoursOr0 (last ts))))) (butlast ts)"
      using "1.IH" by simp
    moreover have "prefix (butlast ts) ts" by (simp add: prefixeq_butlast)
    ultimately show ?thesis
      using True by (subst balanceLoop.simps) (auto intro: prefix_order.trans)
  next
    case False
    then show ?thesis by (subst balanceLoop.simps) auto
  qed
qed

lemma balanceLoop_nonempty: "ts \<noteq> [] \<Longrightarrow> fst (balanceLoop ts tot) \<noteq> []"
proof (induction ts tot rule: balanceLoop.induct)
  case (1 ts totalHours)
  show ?case
  proof (cases "totalHours > maxHoursPerSlot \<and> length ts > 1")
    case True
    then have "butlast ts \<noteq> []" by (cases ts rule: rev_cases) auto
    then show ?thesis using "1.IH" True by (subst balanceLoop.simps) simp
  next
    case False
    then show ?thesis using "1.prems" by (subst balanceLoop.simps) auto
  qed
qed

lemma balanceLoop_exit:
  "length (fst (balanceLoop ts tot)) \<le> 1 \<or> snd (balanceLoop ts tot) \<le> maxHoursPerSlot"
proof (induction ts tot rule: balanceLoop.induct)
  case (1 ts totalHours)
  show ?case
  proof (cases "totalHours > maxHoursPerSlot \<and> length ts > 1")
    case True
    then show ?thesis using "1.IH" by (subst (1 2) balanceLoop.simps) simp
  next
    case False
    then show ?thesis by (subst (1 2) balanceLoop.simps) auto
  qed
qed

lemma balanceSlot_tasks:
  "tasks (balanceSlot slot) = fst (balanceLoop (tasks slot) (sumHours (tasks slot)))"
  by (simp add: balanceSlot_def)

lemma balanceSlot_length: "length (tasks (balanceSlot slot)) \<le> length (tasks slot)"
  using balanceLoop_prefix [of "tasks slot" "sumHours (tasks slot)"]
  by (simp add: balanceSlot_tasks prefix_length_le)

lemma balanceSlot_set: "set (tasks (balanceSlot slot)) \<subseteq> set (tasks slot)"
  using balanceLoop_prefix [of "tasks slot" "sumHours (tasks slot)"]
  by (simp add: balanceSlot_tasks set_mono_prefix)

lemma generateDailySchedule_slots:
  "morning (generateDailySchedule parse clock today ts)
     = fst (categorizeTasksByEnergy (map task (take 10 (calculateTopPriorityTasks parse clock ts))))"
  "afternoon (generateDailySchedule parse clock today ts)
     = fst (snd (categorizeTasksByEnergy (map task (take 10 (calculateTopPriorityTasks parse clock ts)))))"
  "evening (generateDailySchedule parse clock today ts)
     = snd (snd (categorizeTasksByEnergy (map task (take 10 (calculateTopPriorityTasks parse clock ts)))))"
  by (simp_all add: generateDailySchedule_def Let_def split: prod.splits)

lemma categorizeTasksByEnergy_slots:
  "fst (categorizeTasksByEnergy ts) = balanceSlot (fst (distribute ts emptySlots))"
  "fst (snd (categorizeTasksByEnergy ts)) = balanceSlot (fst (snd (distribute ts emptySlots)))"
  "snd (snd (categorizeTasksByEnergy ts)) = balanceSlot (snd (snd (distribute ts emptySlots)))"
  by (simp_all add: categorizeTasksByEnergy_def split: prod.splits)

lemma buckets:
  "tasks (fst (distribute ts emptySlots)) = filter (\<lambda>t. isCreative t \<and> isComplex t) ts"
  "tasks (fst (snd (distribute ts emptySlots)))
     = filter (\<lambda>t. \<not> (isCreative t \<and> isComplex t)
                   \<and> (category t = education \<or> category t = publication)) ts"
  "tasks (snd (snd (distribute ts emptySlots)))
     = filter (\<lambda>t. \<not> (isCreative t \<and> isComplex t)
                   \<and> \<not> (category t = education \<or> category t = publication)) ts"
  by (simp_all add: emptySlots_def distribute_tasks)

lemma generateDailySchedule_buckets:
  "morning (generateDailySchedule parse clock today ts)
     = balanceSlot (fst (distribute
         (map task (take 10 (calculateTopPriorityTasks parse clock ts))) emptySlots))"
  "afternoon (generateDailySchedule parse clock today ts)
     = balanceSlot (fst (snd (distribute
         (map task (take 10 (calculateTopPriorityTasks parse clock ts))) emptySlots)))"
  "evening (generateDailySchedule parse clock today ts)
     = balanceSlot (snd (snd (distribute
         (map task (take 10 (calculateTopPriorityTasks parse clock ts))) emptySlots)))"
  by (simp_all only: generateDailySchedule_slots categorizeTasksByEnergy_slots)

lemma three_way_length:
  "length (filter (\<lambda>t. P t) ts)
   + length (filter (\<lambda>t. \<not> P t \<and> Q t) ts)
   + length (filter (\<lambda>t. \<not> P t \<and> \<not> Q t) ts) = length ts"
  by (induction ts) auto

lemma generateDailySchedule_at_most_three:
  "length (tasks (morning (generateDailySchedule parse clock today ts)))
   + length (tasks (afternoon (generateDailySchedule parse clock today ts)))
   + length (tasks (evening (generateDailySchedule parse clock today ts))) \<le> 3"
proof -
  define top where "top = map task (take 10 (calculateTopPriorityTasks parse clock ts))"
  have l: "length top \<le> 3" by (simp add: top_def top_length)
  have "length (tasks (balanceSlot (fst (distribute top emptySlots))))
        + length (tasks (balanceSlot (fst (snd (distribute top emptySlots)))))
        + length (tasks (balanceSlot (snd (snd (distribute top emptySlots)))))
        \<le> length (tasks (fst (distribute top emptySlots)))
        + length (tasks (fst (snd (distribute top emptySlots))))
        + length (tasks (snd (snd (distribute top emptySlots))))"
    by (intro add_mono balanceSlot_length)
  also have "\<dots> = length top"
    unfolding buckets by (rule three_way_length)
  finally show ?thesis
    unfolding generateDailySchedule_buckets top_def [symmetric] using l by linarith
qed

text \<open>Twelve eligible tasks, listed in descending order of urgency.\<close>

lemma factors_no_hours_no_date:
  "getUrgencyFactors parse now (exampleTask i c None None)
   = \<lparr>deadline = 2, impact = orDefault (categoryImpact c) 2,
      dependency = (if c = exhibition \<or> c = collection then 5 else 2), complexity = 2\<rparr>"
  by (cases c)
    (simp_all add: getUrgencyFactors_def exampleTask_def getDeadlineScore_def getImpactScore_def
      getDependencyScore_def getComplexityScore_def orDefault_def)

lemma scoreEach_twelve_sorted:
  "sorted (map (\<lambda>r. - urgencyScore r) (scoreEach parse clock 0 twelveTasks))"
  by (simp add: twelveTasks_def calculateUrgencyScore_def Let_def factors_no_hours_no_date
      orDefault_def weightedSum_mono)

lemma twelve_top:
  "calculateTopPriorityTasks parse clock twelveTasks
   = take 3 (scoreEach parse clock 0 twelveTasks)"
proof -
  have "filter eligible twelveTasks = twelveTasks"
    by (simp add: twelveTasks_def eligible_def exampleTask_def)
  then show ?thesis
    by (simp add: calculateTopPriorityTasks_def Let_def sortByUrgency_def
        sort_key_id_if_sorted [OF scoreEach_twelve_sorted])
qed

lemma twelve_top_tasks:
  "map task (take 10 (calculateTopPriorityTasks parse clock twelveTasks)) = take 3 twelveTasks"
  by (simp add: twelve_top take_map [symmetric] scoreEach_task)

text \<open>
  C1. \<open>generateDailySchedule\<close> takes its candidates from \<open>calculateTopPriorityTasks\<close>,
  which has already cut the ranking to 3, so its own cut to 10 never applies and no
  schedule holds more than 3 tasks (\<open>generateDailySchedule_at_most_three\<close>). Of twelve
  eligible tasks without hours, the three most urgent are placed, all in the evening slot,
  and nine are left out; the claim has ten placed and two left out.
\<close>

theorem generateDailySchedule_twelve_tasks:
  "length (filter eligible twelveTasks) = 12
   \<and> tasks (morning (generateDailySchedule exampleParse (\<lambda>k. 0) ''2025-12-03'' twelveTasks)) = []
   \<and> tasks (afternoon (generateDailySchedule exampleParse (\<lambda>k. 0) ''2025-12-03'' twelveTasks)) = []
   \<and> tasks (evening (generateDailySchedule exampleParse (\<lambda>k. 0) ''2025-12-03'' twelveTasks))
       = take 3 twelveTasks"
proof -
  have e: "length (filter eligible twelveTasks) = 12"
    by (simp add: twelveTasks_def eligible_def exampleTask_def)
  note top = twelve_top_tasks [of exampleParse "\<lambda>k. 0"]
  have h: "sumHours (take 3 twelveTasks) = 0"
    by (simp add: sumHours_def twelveTasks_def exampleTask_def hoursOr0_def fadd_def fl_0)
  have b: "balanceLoop (take 3 twelveTasks) 0 = (take 3 twelveTasks, 0)"
    by (subst balanceLoop.simps) (simp add: maxHoursPerSlot_def)
  have m: "filter (\<lambda>t. isCreative t \<and> isComplex t) (take 3 twelveTasks) = []"
    by (simp add: twelveTasks_def exampleTask_def isComplex_def hoursOr0_def)
  have a: "filter (\<lambda>t. \<not> (isCreative t \<and> isComplex t)
                   \<and> (category t = education \<or> category t = publication)) (take 3 twelveTasks) = []"
    by (simp add: twelveTasks_def exampleTask_def isComplex_def hoursOr0_def)
  have v: "filter (\<lambda>t. \<not> (isCreative t \<and> isComplex t)
                   \<and> \<not> (category t = education \<or> category t = publication)) (take 3 twelveTasks)
           = take 3 twelveTasks"
    by (simp add: twelveTasks_def exampleTask_def isComplex_def hoursOr0_def)
  have b0: "balanceLoop [] 0 = ([], 0)"
    by (subst balanceLoop.simps) simp
  have h0: "sumHours [] = 0" by (simp add: sumHours_def)
  show ?thesis
    unfolding generateDailySchedule_buckets top balanceSlot_tasks buckets m a v h h0 b b0
    using e by simp
qed

section \<open>Balancing the slots\<close>

lemma grid_sum:
  "list_all (\<lambda>t. 0 \<le> hoursOr0 t \<and> hoursOr0 t * 2 ^ q \<in> \<int>) ts
   \<Longrightarrow> 0 \<le> sum_list (map hoursOr0 ts) \<and> sum_list (map hoursOr0 ts) * 2 ^ q \<in> \<int>"
  by (induction ts) (auto simp: distrib_right)

lemma exactHours_snoc: "exactHours q (ts @ [t]) \<Longrightarrow> exactHours q ts \<and> 0 \<le> hoursOr0 t"
proof -
  assume a: "exactHours q (ts @ [t])"
  then have t: "0 \<le> hoursOr0 t" by (simp add: exactHours_def)
  then have "0 \<le> hoursOr0 t * 2 ^ q" by simp
  moreover have "sum_list (map hoursOr0 (ts @ [t])) * 2 ^ q
                 = sum_list (map hoursOr0 ts) * 2 ^ q + hoursOr0 t * 2 ^ q"
    by (simp add: distrib_right)
  ultimately have "sum_list (map hoursOr0 ts) * 2 ^ q < 2 ^ 53"
    using a unfolding exactHours_def by linarith
  then show ?thesis using a t by (simp add: exactHours_def)
qed

lemma exactHours_fl:
  "exactHours q ts \<Longrightarrow> fl (sum_list (map hoursOr0 ts)) = sum_list (map hoursOr0 ts)"
  using grid_sum [of q ts] by (intro grid_fl [where q = q]) (auto simp: exactHours_def)

lemma sumHours_snoc: "sumHours (ts @ [t]) = fadd (sumHours ts) (hoursOr0 t)"
  by (simp add: sumHours_def)

lemma sumHours_exact: "exactHours q ts \<Longrightarrow> sumHours ts = sum_list (map hoursOr0 ts)"
proof (induction ts rule: rev_induct)
  case Nil
  then show ?case by (simp add: sumHours_def)
next
  case (snoc t ts)
  then have "sumHours ts = sum_list (map hoursOr0 ts)" using exactHours_snoc by blast
  then have "sumHours (ts @ [t]) = fl (sum_list (map hoursOr0 (ts @ [t])))"
    by (simp add: sumHours_snoc fadd_def)
  then show ?case using exactHours_fl [OF snoc.prems] by simp
qed

lemma balanceLoop_exact:
  "exactHours q ts \<Longrightarrow> tot = sum_list (map hoursOr0 ts)
   \<Longrightarrow> snd (balanceLoop ts tot) = sum_list (map hoursOr0 (fst (balanceLoop ts tot)))"
proof (induction ts tot rule: balanceLoop.induct)
  case (1 ts totalHours)
  show ?case
  proof (cases "totalHours > maxHoursPerSlot \<and> length ts > 1")
    case True
    then have ne: "ts \<noteq> []" by auto
    then have split: "ts = butlast ts @ [last ts]" by simp
    have ex: "exactHours q (butlast ts)" using exactHours_snoc "1.prems"(1) split by metis
    have "sum_list (map hoursOr0 ts) = sum_list (map hoursOr0 (butlast ts)) + hoursOr0 (last ts)"
      by (subst split) simp
    then have "fsub totalHours (hoursOr0 (last ts)) = fl (sum_list (map hoursOr0 (butlast ts)))"
      using "1.prems"(2) by (simp add: fsub_def)
    then have "fsub totalHours (hoursOr0 (last ts)) = sum_list (map hoursOr0 (butlast ts))"
      using exactHours_fl [OF ex] by simp
    from "1.IH" [OF True ex this] True show ?thesis
      by (subst (1 2) balanceLoop.simps) simp
  next
    case False
    then show ?thesis using "1.prems"(2) by (subst (1 2) balanceLoop.simps) auto
  qed
qed

lemma balanceSlot_exact:
  assumes "exactHours q (tasks slot)"
  shows "sum_list (map hoursOr0 (tasks (balanceSlot slot))) \<le> 3
         \<or> (\<exists>t. tasks (balanceSlot slot) = [t] \<and> 3 < hoursOr0 t)"
proof -
  define r where "r = balanceLoop (tasks slot) (sumHours (tasks slot))"
  have s: "snd r = sum_list (map hoursOr0 (fst r))"
    unfolding r_def using assms sumHours_exact [OF assms] by (intro balanceLoop_exact) simp_all
  have e: "length (fst r) \<le> 1 \<or> snd r \<le> 3"
    unfolding r_def using balanceLoop_exit [of "tasks slot" "sumHours (tasks slot)"]
    by (simp add: maxHoursPerSlot_def)
  have t: "tasks (balanceSlot slot) = fst r" by (simp add: r_def balanceSlot_tasks)
  show ?thesis
  proof (cases "snd r \<le> 3")
    case True
    then show ?thesis using s t by simp
  next
    case False
    with e have "length (fst r) \<le> 1" by simp
    then consider "fst r = []" | t where "fst r = [t]"
      by (cases "fst r") (auto simp: length_Suc_conv)
    then show ?thesis
    proof cases
      case 1
      then show ?thesis using s False by simp
    next
      case 2
      then show ?thesis using s False t by simp
    qed
  qed
qed

text \<open>
  The loop returns a prefix of the slot's list together with the running total at that
  prefix, and it removed a task only when the running total exceeded the cap.
\<close>

lemma totalAfterTrim_all: "length ts \<le> j \<Longrightarrow> totalAfterTrim tot ts j = tot"
  by (simp add: totalAfterTrim_def)

lemma totalAfterTrim_step:
  "j < length ts \<Longrightarrow>
   totalAfterTrim tot ts j = fsub (totalAfterTrim tot ts (Suc j)) (hoursOr0 (ts ! j))"
  by (simp add: totalAfterTrim_def Cons_nth_drop_Suc [symmetric])

lemma totalAfterTrim_butlast:
  assumes "ts \<noteq> []" "j < length ts"
  shows "totalAfterTrim tot ts j
         = totalAfterTrim (fsub tot (hoursOr0 (last ts))) (butlast ts) j"
proof -
  have "drop j ts = drop j (butlast ts) @ [last ts]"
    using assms by (metis append_butlast_last_id drop_append length_butlast
        Suc_diff_1 length_greater_0_conv less_Suc_eq_le diff_is_0_eq drop0)
  then show ?thesis by (simp add: totalAfterTrim_def)
qed

lemma balanceLoop_trim:
  "fst (balanceLoop ts tot) = take (length (fst (balanceLoop ts tot))) ts
   \<and> snd (balanceLoop ts tot) = totalAfterTrim tot ts (length (fst (balanceLoop ts tot)))
   \<and> length (fst (balanceLoop ts tot)) \<le> length ts
   \<and> (\<forall>j. length (fst (balanceLoop ts tot)) < j \<and> j \<le> length ts
          \<longrightarrow> maxHoursPerSlot < totalAfterTrim tot ts j)"
proof (induction ts tot rule: balanceLoop.induct)
  case (1 ts totalHours)
  show ?case
  proof (cases "totalHours > maxHoursPerSlot \<and> length ts > 1")
    case True
    define tot' where "tot' = fsub totalHours (hoursOr0 (last ts))"
    define k where "k = length (fst (balanceLoop (butlast ts) tot'))"
    have ne: "ts \<noteq> []" using True by auto
    have unf: "balanceLoop ts totalHours = balanceLoop (butlast ts) tot'"
      using True by (subst balanceLoop.simps) (simp add: tot'_def)
    have ih: "fst (balanceLoop (butlast ts) tot') = take k (butlast ts)"
      "snd (balanceLoop (butlast ts) tot') = totalAfterTrim tot' (butlast ts) k"
      "k \<le> length (butlast ts)"
      "\<forall>j. k < j \<and> j \<le> length (butlast ts) \<longrightarrow> maxHoursPerSlot < totalAfterTrim tot' (butlast ts) j"
      using "1.IH" [OF True] by (simp_all add: tot'_def k_def)
    have kn: "k < length ts" using ih(3) ne by (cases ts rule: rev_cases) auto
    have a: "take k (butlast ts) = take k ts"
      using kn by (simp add: take_butlast)
    have b: "totalAfterTrim tot' (butlast ts) j = totalAfterTrim totalHours ts j"
      if "j < length ts" for j
      using totalAfterTrim_butlast [OF ne that, of totalHours] by (simp add: tot'_def)
    have c: "maxHoursPerSlot < totalAfterTrim totalHours ts j" if "k < j \<and> j \<le> length ts" for j
    proof (cases "j = length ts")
      case True
      then show ?thesis using \<open>totalHours > maxHoursPerSlot \<and> length ts > 1\<close>
        by (simp add: totalAfterTrim_all)
    next
      case False
      with that have j: "j < length ts" by simp
      then have "j \<le> length (butlast ts)" by simp
      with ih(4) that have "maxHoursPerSlot < totalAfterTrim tot' (butlast ts) j" by blast
      then show ?thesis by (simp add: b [OF j])
    qed
    show ?thesis
      unfolding unf k_def [symmetric]
      using ih(1,2) a b [OF kn] kn c by simp
  next
    case False
    then have unf: "balanceLoop ts totalHours = (ts, totalHours)"
      by (subst balanceLoop.simps) auto
    show ?thesis unfolding unf by (simp add: totalAfterTrim_all)
  qed
qed

text \<open>
  The running total differs from the sum of the remaining hours by the accumulated rounding
  error only, for hours that are not negative.
\<close>

lemma sum_hours_nonneg:
  "list_all (\<lambda>t. 0 \<le> hoursOr0 t) ts \<Longrightarrow> 0 \<le> sum_list (map hoursOr0 ts)"
  by (induction ts) auto

lemma sum_hours_take:
  assumes "list_all (\<lambda>t. 0 \<le> hoursOr0 t) ts"
  shows "0 \<le> sum_list (map hoursOr0 (take j ts))
         \<and> sum_list (map hoursOr0 (take j ts)) \<le> sum_list (map hoursOr0 ts)"
proof -
  have a: "list_all (\<lambda>t. 0 \<le> hoursOr0 t) (take j ts)" "list_all (\<lambda>t. 0 \<le> hoursOr0 t) (drop j ts)"
    using assms by (auto simp: list_all_iff dest: in_set_takeD in_set_dropD)
  have "sum_list (map hoursOr0 ts)
        = sum_list (map hoursOr0 (take j ts)) + sum_list (map hoursOr0 (drop j ts))"
    by (metis append_take_drop_id map_append sum_list_append)
  then show ?thesis using sum_hours_nonneg [OF a(1)] sum_hours_nonneg [OF a(2)] by simp
qed

lemma sum_hours_take_Suc:
  "j < length ts \<Longrightarrow>
   sum_list (map hoursOr0 (take (Suc j) ts))
   = sum_list (map hoursOr0 (take j ts)) + hoursOr0 (ts ! j)"
  by (simp add: take_Suc_conv_app_nth)

lemma sumHours_take_Suc:
  "j < length ts \<Longrightarrow> sumHours (take (Suc j) ts) = fadd (sumHours (take j ts)) (hoursOr0 (ts ! j))"
  by (simp add: take_Suc_conv_app_nth sumHours_def)

lemma sumHours_err:
  assumes nn: "list_all (\<lambda>t. 0 \<le> hoursOr0 t) ts" and n: "length ts \<le> 2 ^ 52"
  shows "j \<le> length ts \<Longrightarrow>
         \<bar>sumHours (take j ts) - sum_list (map hoursOr0 (take j ts))\<bar>
         \<le> of_nat j * sum_list (map hoursOr0 ts) / 2 ^ 51"
proof (induction j)
  case 0
  then show ?case by (simp add: sumHours_def)
next
  case (Suc j)
  then have j: "j < length ts" by simp
  have ih: "\<bar>sumHours (take j ts) - sum_list (map hoursOr0 (take j ts))\<bar>
         \<le> of_nat j * sum_list (map hoursOr0 ts) / 2 ^ 51"
    using Suc by simp
  have z: "\<bar>(sumHours (take j ts) + hoursOr0 (ts ! j)) - sum_list (map hoursOr0 (take (Suc j) ts))\<bar>
         \<le> of_nat j * sum_list (map hoursOr0 ts) / 2 ^ 51"
    using ih by (simp add: sum_hours_take_Suc [OF j])
  have m: "j \<le> 2 ^ 52" using j n by simp
  show ?case
    unfolding sumHours_take_Suc [OF j] fadd_def
    using fl_step [OF z _ _ m] sum_hours_take [OF nn, of "Suc j"] by blast
qed

lemma runningTotal_err:
  assumes nn: "list_all (\<lambda>t. 0 \<le> hoursOr0 t) ts" and n: "length ts \<le> 2 ^ 51"
  shows "d \<le> length ts \<Longrightarrow>
         \<bar>runningTotal ts (length ts - d) - sum_list (map hoursOr0 (take (length ts - d) ts))\<bar>
         \<le> of_nat (length ts + d) * sum_list (map hoursOr0 ts) / 2 ^ 51"
proof (induction d)
  case 0
  have "length ts \<le> 2 ^ 52" using n by (rule order_trans) simp
  from sumHours_err [OF nn this, of "length ts"] show ?case
    by (simp add: runningTotal_def totalAfterTrim_all)
next
  case (Suc d)
  define j where "j = length ts - Suc d"
  have j: "j < length ts" "Suc j = length ts - d" using Suc.prems by (simp_all add: j_def)
  have ih: "\<bar>runningTotal ts (Suc j) - sum_list (map hoursOr0 (take (Suc j) ts))\<bar>
         \<le> of_nat (length ts + d) * sum_list (map hoursOr0 ts) / 2 ^ 51"
    using Suc by (simp add: j(2))
  have "runningTotal ts (Suc j) - hoursOr0 (ts ! j) - sum_list (map hoursOr0 (take j ts))
        = runningTotal ts (Suc j) - sum_list (map hoursOr0 (take (Suc j) ts))"
    by (simp add: sum_hours_take_Suc [OF j(1)])
  then have z: "\<bar>(runningTotal ts (Suc j) - hoursOr0 (ts ! j)) - sum_list (map hoursOr0 (take j ts))\<bar>
         \<le> of_nat (length ts + d) * sum_list (map hoursOr0 ts) / 2 ^ 51"
    using ih by (simp only:)
  have "length ts + d \<le> 2 ^ 51 + 2 ^ 51" using n Suc.prems by (intro add_mono) simp_all
  then have m: "length ts + d \<le> 2 ^ 52" by simp
  have s: "runningTotal ts j = fl (runningTotal ts (Suc j) - hoursOr0 (ts ! j))"
    by (simp add: runningTotal_def totalAfterTrim_step [OF j(1)] fsub_def)
  show ?case
    unfolding j_def [symmetric] s
    using fl_step [OF z _ _ m] sum_hours_take [OF nn, of j] by simp
qed

lemma runningTotal_bound:
  assumes nn: "list_all (\<lambda>t. 0 \<le> hoursOr0 t) ts" and n: "length ts \<le> 2 ^ 51"
    and k: "k \<le> length ts"
  shows "sum_list (map hoursOr0 (take k ts))
         \<le> runningTotal ts k + of_nat (length ts) * sum_list (map hoursOr0 ts) / 2 ^ 50"
proof -
  define E where "E = sum_list (map hoursOr0 ts)"
  have E0: "0 \<le> E" unfolding E_def by (rule sum_hours_nonneg [OF nn])
  have e: "\<bar>runningTotal ts k - sum_list (map hoursOr0 (take k ts))\<bar>
         \<le> of_nat (length ts + (length ts - k)) * E / 2 ^ 51"
    using runningTotal_err [OF nn n, of "length ts - k"] k by (simp add: E_def)
  have "rat_of_nat (length ts + (length ts - k)) \<le> rat_of_nat (2 * length ts)"
    by (simp only: of_nat_le_iff)
  then have "rat_of_nat (length ts + (length ts - k)) * E \<le> rat_of_nat (2 * length ts) * E"
    using E0 by (rule mult_right_mono)
  then have "of_nat (length ts + (length ts - k)) * E / 2 ^ 51 \<le> of_nat (length ts) * E / 2 ^ 50"
    by (simp add: mult.commute mult.left_commute)
  with e show ?thesis unfolding E_def by linarith
qed

lemma balanceSlot_trim:
  "tasks (balanceSlot slot) = take (length (tasks (balanceSlot slot))) (tasks slot)
   \<and> length (tasks (balanceSlot slot)) \<le> length (tasks slot)
   \<and> snd (balanceLoop (tasks slot) (sumHours (tasks slot)))
       = runningTotal (tasks slot) (length (tasks (balanceSlot slot)))
   \<and> (\<forall>j. length (tasks (balanceSlot slot)) < j \<and> j \<le> length (tasks slot)
          \<longrightarrow> 3 < runningTotal (tasks slot) j)"
  using balanceLoop_trim [of "tasks slot" "sumHours (tasks slot)"]
  by (simp add: balanceSlot_tasks runningTotal_def maxHoursPerSlot_def)

lemma balanceSlot_exit:
  "length (tasks (balanceSlot slot)) \<le> 1
   \<or> runningTotal (tasks slot) (length (tasks (balanceSlot slot))) \<le> 3"
  using balanceLoop_exit [of "tasks slot" "sumHours (tasks slot)"] balanceSlot_trim [of slot]
  by (simp add: balanceSlot_tasks maxHoursPerSlot_def)

lemma short_list_cases:
  assumes "length (r :: 'a list) \<le> 1"
  obtains "r = []" | t where "r = [t]"
  using assms by (cases r) (auto simp: length_Suc_conv)

lemma balanceSlot_untrimmed:
  assumes same: "tasks (balanceSlot slot) = tasks slot"
  shows "sumHours (tasks slot) \<le> 3 \<or> (\<exists>t. tasks slot = [t] \<and> 3 < hoursOr0 t)"
proof (cases "length (tasks slot) \<le> 1")
  case True
  then show ?thesis
  proof (cases rule: short_list_cases)
    case 1
    then show ?thesis by (simp add: sumHours_def)
  next
    case (2 t)
    show ?thesis
    proof (cases "3 < hoursOr0 t")
      case True
      then show ?thesis using 2 by simp
    next
      case False
      then have "fl (hoursOr0 t) \<le> fl 3" by (intro fl_mono) simp
      moreover have "fl 3 = 3" using fl_of_int [of 3] by simp
      ultimately show ?thesis using 2 by (simp add: sumHours_def fadd_def)
    qed
  qed
next
  case False
  then have "runningTotal (tasks slot) (length (tasks slot)) \<le> 3"
    using balanceSlot_exit [of slot] same by simp
  then show ?thesis by (simp add: runningTotal_def totalAfterTrim_all)
qed

lemma balanceSlot_bound:
  assumes nn: "list_all (\<lambda>t. 0 \<le> hoursOr0 t) (tasks slot)"
    and n: "length (tasks slot) \<le> 2 ^ 51"
  shows "sum_list (map hoursOr0 (tasks (balanceSlot slot)))
           \<le> 3 + of_nat (length (tasks slot)) * sum_list (map hoursOr0 (tasks slot)) / 2 ^ 50
         \<or> (\<exists>t. tasks (balanceSlot slot) = [t] \<and> 3 < hoursOr0 t)"
proof -
  define k where "k = length (tasks (balanceSlot slot))"
  define e where "e = of_nat (length (tasks slot)) * sum_list (map hoursOr0 (tasks slot)) / 2 ^ 50"
  have r: "tasks (balanceSlot slot) = take k (tasks slot)" and kn: "k \<le> length (tasks slot)"
    using balanceSlot_trim [of slot] by (simp_all add: k_def)
  have e0: "0 \<le> e" unfolding e_def using sum_hours_nonneg [OF nn] by simp
  have b: "sum_list (map hoursOr0 (take k (tasks slot))) \<le> runningTotal (tasks slot) k + e"
    unfolding e_def by (rule runningTotal_bound [OF nn n kn])
  show ?thesis
  proof (cases "k \<le> 1")
    case True
    then have "length (tasks (balanceSlot slot)) \<le> 1" by (simp add: k_def)
    then show ?thesis
    proof (cases rule: short_list_cases)
      case 1
      then show ?thesis using e0 by (simp add: e_def)
    next
      case (2 t)
      then show ?thesis using e0 by (cases "3 < hoursOr0 t") (auto simp: e_def)
    qed
  next
    case False
    then have "runningTotal (tasks slot) k \<le> 3"
      using balanceSlot_exit [of slot] by (simp add: k_def)
    then show ?thesis using b r by (simp add: e_def)
  qed
qed

lemma balanceSlot_float_bound:
  assumes nn: "list_all (\<lambda>t. 0 \<le> hoursOr0 t) (tasks slot)"
    and n: "length (tasks slot) \<le> 2 ^ 51"
  shows "sumHours (tasks (balanceSlot slot))
           \<le> 3 + of_nat (length (tasks slot)) * sum_list (map hoursOr0 (tasks slot)) / 2 ^ 49
         \<or> (\<exists>t. tasks (balanceSlot slot) = [t] \<and> 3 < hoursOr0 t)"
proof -
  define k where "k = length (tasks (balanceSlot slot))"
  define E where "E = sum_list (map hoursOr0 (tasks slot))"
  define N where "N = rat_of_nat (length (tasks slot))"
  have r: "tasks (balanceSlot slot) = take k (tasks slot)" and kn: "k \<le> length (tasks slot)"
    using balanceSlot_trim [of slot] by (simp_all add: k_def)
  have E0: "0 \<le> E" unfolding E_def by (rule sum_hours_nonneg [OF nn])
  have N0: "0 \<le> N" by (simp add: N_def)
  have NE: "0 \<le> N * E" using N0 E0 by simp
  show ?thesis
  proof (cases "k \<le> 1")
    case True
    then have "length (tasks (balanceSlot slot)) \<le> 1" by (simp add: k_def)
    then show ?thesis
    proof (cases rule: short_list_cases)
      case 1
      then show ?thesis using NE by (simp add: sumHours_def E_def N_def)
    next
      case (2 t)
      show ?thesis
      proof (cases "3 < hoursOr0 t")
        case True
        then show ?thesis using 2 by simp
      next
        case False
        then have "fl (hoursOr0 t) \<le> fl 3" by (intro fl_mono) simp
        moreover have "fl 3 = 3" using fl_of_int [of 3] by simp
        ultimately have "sumHours [t] \<le> 3" by (simp add: sumHours_def fadd_def)
        moreover have "0 \<le> N * E / 2 ^ 49" using NE by simp
        ultimately show ?thesis using 2 by (simp add: E_def N_def)
      qed
    qed
  next
    case False
    then have T: "runningTotal (tasks slot) k \<le> 3"
      using balanceSlot_exit [of slot] by (simp add: k_def)
    have b: "sum_list (map hoursOr0 (take k (tasks slot))) \<le> runningTotal (tasks slot) k + N * E / 2 ^ 50"
      unfolding E_def N_def by (rule runningTotal_bound [OF nn n kn])
    have "length (tasks slot) \<le> 2 ^ 52" using n by (rule order_trans) simp
    from sumHours_err [OF nn this kn]
    have e: "\<bar>sumHours (take k (tasks slot)) - sum_list (map hoursOr0 (take k (tasks slot)))\<bar>
             \<le> of_nat k * E / 2 ^ 51"
      by (simp add: E_def)
    have "rat_of_nat k \<le> N" unfolding N_def using kn by (simp only: of_nat_le_iff)
    then have "rat_of_nat k * E \<le> N * E" using E0 by (rule mult_right_mono)
    then have "of_nat k * E / 2 ^ 51 \<le> N * E / 2 ^ 51" by (simp add: divide_right_mono)
    with e have "sumHours (take k (tasks slot))
                 \<le> sum_list (map hoursOr0 (take k (tasks slot))) + N * E / 2 ^ 51"
      by linarith
    with b T have s: "sumHours (take k (tasks slot)) \<le> 3 + (N * E / 2 ^ 50 + N * E / 2 ^ 51)"
      by linarith
    have "x / 2 ^ 50 + x / 2 ^ 51 \<le> x / 2 ^ 49" if "0 \<le> x" for x :: rat
      using that by simp
    from this [OF NE] s have "sumHours (take k (tasks slot)) \<le> 3 + N * E / 2 ^ 49"
      by linarith
    then show ?thesis using r by (simp add: E_def N_def)
  qed
qed

lemma drift_sorted:
  "sorted (map (\<lambda>r. - urgencyScore r) (scoreEach parse clock 0 driftTasks))"
  by (simp add: driftTasks_def calculateUrgencyScore_def Let_def getUrgencyFactors_def
      exampleTask_def getDeadlineScore_def getImpactScore_def getDependencyScore_def
      getComplexityScore_def orDefault_def)

lemma drift_top:
  "map task (take 10 (calculateTopPriorityTasks parse clock driftTasks)) = driftTasks"
proof -
  have "filter eligible driftTasks = driftTasks"
    by (simp add: driftTasks_def eligible_def exampleTask_def)
  then have "calculateTopPriorityTasks parse clock driftTasks
             = take 3 (scoreEach parse clock 0 driftTasks)"
    by (simp add: calculateTopPriorityTasks_def Let_def sortByUrgency_def
        sort_key_id_if_sorted [OF drift_sorted])
  then show ?thesis
    by (simp add: take_map [symmetric] scoreEach_task) (simp add: driftTasks_def)
qed

lemma drift_bucket:
  "filter (\<lambda>t. \<not> (isCreative t \<and> isComplex t)
              \<and> \<not> (category t = education \<or> category t = publication)) driftTasks = driftTasks"
  by (simp add: driftTasks_def exampleTask_def isCreative_def)

lemma drift_balance:
  "balanceLoop driftTasks (sumHours driftTasks) = (take 2 driftTasks, 3)"
  by code_simp

lemma drift_sums:
  "sum_list (map hoursOr0 (take 2 driftTasks)) = 3 + 1 / 2 ^ 51"
  "sumHours (take 2 driftTasks) = 3 + 1 / 2 ^ 51"
  by code_simp+

text \<open>
  C6, as stated, fails by rounding. The loop does not sum the hours that remain; it keeps
  a running total, the binary64 sum of the slot's hours less the hours of each removed
  task. For the three tasks of \<open>driftTasks\<close> the sum 1.5 + 1.5000000000000004 + 1 rounds to
  4, removing the last task leaves a running total of exactly 3, and the loop stops with
  two tasks in the evening slot whose hours sum to more than 3.
\<close>

theorem balanceWorkload_rounding_counterexample:
  "length (tasks (evening (generateDailySchedule exampleParse (\<lambda>k. 0) ''2025-12-03'' driftTasks))) = 2
   \<and> 3 < sum_list (map hoursOr0
           (tasks (evening (generateDailySchedule exampleParse (\<lambda>k. 0) ''2025-12-03'' driftTasks))))
   \<and> 3 < sumHours
           (tasks (evening (generateDailySchedule exampleParse (\<lambda>k. 0) ''2025-12-03'' driftTasks)))"
proof -
  have "tasks (evening (generateDailySchedule exampleParse (\<lambda>k. 0) ''2025-12-03'' driftTasks))
        = take 2 driftTasks"
    unfolding generateDailySchedule_buckets drift_top balanceSlot_tasks buckets drift_bucket
      drift_balance by simp
  then show ?thesis by (simp add: drift_sums) (simp add: driftTasks_def)
qed

lemma exampleSlot_balanced:
  "tasks (balanceSlot exampleSlot) = take 1 (tasks exampleSlot)"
  by code_simp

lemma decimalSlot_balanced:
  "tasks (balanceSlot decimalSlot) = tasks decimalSlot"
  by code_simp

text \<open>
  The binary64 sum of 0.3 and 2.7 is exactly 3, so the loop removes nothing from
  \<open>decimalSlot\<close>, while the two binary64 values themselves add up to slightly more than 3.
\<close>

lemma decimalSlot_sums:
  "sumHours (tasks decimalSlot) = 3"
  "3 < sum_list (map hoursOr0 (tasks decimalSlot))"
  by code_simp+

text \<open>
  C6, amended. In every schedule produced by \<open>generateDailySchedule\<close> each slot is the
  balanced form of the tasks assigned to it. Balancing keeps the first \<open>k\<close> tasks of the
  slot's list, at least one if the slot is not empty. It removes the last task only while
  the loop's running total (the binary64 sum of the slot's hours less the hours of the
  removed tasks) exceeds 3.0, and it stops as soon as at most one task remains or the
  running total is at most 3.0; this determines \<open>k\<close>. After balancing:

  \<^item> if no task was removed, the binary64 sum of the slot's hours is at most 3.0, except
    when the slot holds exactly one task whose hours alone exceed 3.0;
  \<^item> if no hours are negative, the remaining hours sum to at most 3.0 plus the accumulated
    rounding error, which is at most \<open>n * E / 2 ^ 50\<close> for the exact sum and
    \<open>n * E / 2 ^ 49\<close> for the binary64 sum, where \<open>n\<close> is the number of tasks assigned to
    the slot and \<open>E\<close> the sum of their hours, with the same exception;
  \<^item> if the arithmetic on the slot's hours is exact (\<open>exactHours\<close>: the hours are multiples
    of a common binary fraction of an hour), the remaining hours sum to at most 3.0, with
    the same exception.
\<close>

theorem balanceWorkload_slot_cap:
  "morning (generateDailySchedule parse clock today ts)
     = balanceSlot (fst (distribute
         (map task (take 10 (calculateTopPriorityTasks parse clock ts))) emptySlots))
   \<and> afternoon (generateDailySchedule parse clock today ts)
     = balanceSlot (fst (snd (distribute
         (map task (take 10 (calculateTopPriorityTasks parse clock ts))) emptySlots)))
   \<and> evening (generateDailySchedule parse clock today ts)
     = balanceSlot (snd (snd (distribute
         (map task (take 10 (calculateTopPriorityTasks parse clock ts))) emptySlots)))
   \<and> tasks (balanceSlot slot) = take (length (tasks (balanceSlot slot))) (tasks slot)
   \<and> (tasks slot \<noteq> [] \<longrightarrow> tasks (balanceSlot slot) \<noteq> [])
   \<and> (\<forall>j. length (tasks (balanceSlot slot)) < j \<and> j \<le> length (tasks slot)
          \<longrightarrow> 3 < runningTotal (tasks slot) j)
   \<and> (length (tasks (balanceSlot slot)) \<le> 1
      \<or> runningTotal (tasks slot) (length (tasks (balanceSlot slot))) \<le> 3)
   \<and> (tasks (balanceSlot slot) = tasks slot \<longrightarrow>
        sumHours (tasks slot) \<le> 3 \<or> (\<exists>t. tasks slot = [t] \<and> 3 < hoursOr0 t))
   \<and> (list_all (\<lambda>t. 0 \<le> hoursOr0 t) (tasks slot) \<and> length (tasks slot) \<le> 2 ^ 51 \<longrightarrow>
        (sum_list (map hoursOr0 (tasks (balanceSlot slot)))
           \<le> 3 + of_nat (length (tasks slot)) * sum_list (map hoursOr0 (tasks slot)) / 2 ^ 50
         \<and> sumHours (tasks (balanceSlot slot))
           \<le> 3 + of_nat (length (tasks slot)) * sum_list (map hoursOr0 (tasks slot)) / 2 ^ 49)
        \<or> (\<exists>t. tasks (balanceSlot slot) = [t] \<and> 3 < hoursOr0 t))
   \<and> (exactHours q (tasks slot) \<longrightarrow>
        sum_list (map hoursOr0 (tasks (balanceSlot slot))) \<le> 3
        \<or> (\<exists>t. tasks (balanceSlot slot) = [t] \<and> 3 < hoursOr0 t))"
proof -
  have ne: "tasks slot \<noteq> [] \<longrightarrow> tasks (balanceSlot slot) \<noteq> []"
    using balanceLoop_nonempty [of "tasks slot" "sumHours (tasks slot)"]
    by (simp add: balanceSlot_tasks)
  have tr: "tasks (balanceSlot slot) = take (length (tasks (balanceSlot slot))) (tasks slot)"
    and mn: "\<forall>j. length (tasks (balanceSlot slot)) < j \<and> j \<le> length (tasks slot)
          \<longrightarrow> 3 < runningTotal (tasks slot) j"
    using balanceSlot_trim [of slot] by blast+
  have un: "tasks (balanceSlot slot) = tasks slot \<longrightarrow>
        sumHours (tasks slot) \<le> 3 \<or> (\<exists>t. tasks slot = [t] \<and> 3 < hoursOr0 t)"
    using balanceSlot_untrimmed [of slot] by blast
  have bd: "list_all (\<lambda>t. 0 \<le> hoursOr0 t) (tasks slot) \<and> length (tasks slot) \<le> 2 ^ 51 \<longrightarrow>
        (sum_list (map hoursOr0 (tasks (balanceSlot slot)))
           \<le> 3 + of_nat (length (tasks slot)) * sum_list (map hoursOr0 (tasks slot)) / 2 ^ 50
         \<and> sumHours (tasks (balanceSlot slot))
           \<le> 3 + of_nat (length (tasks slot)) * sum_list (map hoursOr0 (tasks slot)) / 2 ^ 49)
        \<or> (\<exists>t. tasks (balanceSlot slot) = [t] \<and> 3 < hoursOr0 t)"
    using balanceSlot_bound [of slot] balanceSlot_float_bound [of slot] by blast
  have ex: "exactHours q (tasks slot) \<longrightarrow>
        sum_list (map hoursOr0 (tasks (balanceSlot slot))) \<le> 3
        \<or> (\<exists>t. tasks (balanceSlot slot) = [t] \<and> 3 < hoursOr0 t)"
    using balanceSlot_exact [of q slot] by blast
  show ?thesis
    unfolding generateDailySchedule_buckets
    using tr ne mn balanceSlot_exit [of slot] un bd ex by (intro conjI) simp_all
qed

theorem balanceWorkload_slot_cap_witness:
  "tasks exampleSlot \<noteq> []
   \<and> tasks (balanceSlot exampleSlot) = take 1 (tasks exampleSlot)
   \<and> 3 < runningTotal (tasks exampleSlot) 2
   \<and> 3 < runningTotal (tasks exampleSlot) 3
   \<and> list_all (\<lambda>t. 0 \<le> hoursOr0 t) (tasks exampleSlot)
   \<and> length (tasks exampleSlot) \<le> 2 ^ 51
   \<and> exactHours 1 (tasks exampleSlot)
   \<and> sum_list (map hoursOr0 (tasks (balanceSlot exampleSlot))) \<le> 3
   \<and> tasks (balanceSlot decimalSlot) = tasks decimalSlot
   \<and> sumHours (tasks decimalSlot) \<le> 3"
proof -
  note c = balanceWorkload_slot_cap [of exampleParse "\<lambda>k. 0" "''2025-12-03''" "[]" exampleSlot 1]
  note d = balanceWorkload_slot_cap [of exampleParse "\<lambda>k. 0" "''2025-12-03''" "[]" decimalSlot 1]
  have k: "tasks (balanceSlot exampleSlot) = take 1 (tasks exampleSlot)"
    by (rule exampleSlot_balanced)
  have len: "length (tasks (balanceSlot exampleSlot)) = 1" "length (tasks exampleSlot) = 3"
    unfolding k by (simp_all add: exampleSlot_def)
  have h1: "tasks exampleSlot \<noteq> []" by (simp add: exampleSlot_def)
  have h2: "exactHours 1 (tasks exampleSlot)"
    by (simp add: exampleSlot_def exactHours_def exampleTask_def hoursOr0_def)
  have h3: "list_all (\<lambda>t. 0 \<le> hoursOr0 t) (tasks exampleSlot)"
    by (simp add: exampleSlot_def exampleTask_def hoursOr0_def)
  have h4: "length (tasks exampleSlot) \<le> 2 ^ 51" by (simp add: len)
  from c have "\<forall>j. length (tasks (balanceSlot exampleSlot)) < j \<and> j \<le> length (tasks exampleSlot)
          \<longrightarrow> 3 < runningTotal (tasks exampleSlot) j" by blast
  then have j: "\<forall>j. 1 < j \<and> j \<le> 3 \<longrightarrow> 3 < runningTotal (tasks exampleSlot) j"
    by (simp only: len)
  have j2: "3 < runningTotal (tasks exampleSlot) 2" using j by simp
  have j3: "3 < runningTotal (tasks exampleSlot) 3" using j by simp
  from c h2 have "sum_list (map hoursOr0 (tasks (balanceSlot exampleSlot))) \<le> 3
        \<or> (\<exists>t. tasks (balanceSlot exampleSlot) = [t] \<and> 3 < hoursOr0 t)" by blast
  then have s: "sum_list (map hoursOr0 (tasks (balanceSlot exampleSlot))) \<le> 3"
    unfolding k by (simp add: exampleSlot_def exampleTask_def hoursOr0_def)
  have same: "tasks (balanceSlot decimalSlot) = tasks decimalSlot"
    by (rule decimalSlot_balanced)
  from d same have "sumHours (tasks decimalSlot) \<le> 3
        \<or> (\<exists>t. tasks decimalSlot = [t] \<and> 3 < hoursOr0 t)" by blast
  then have f: "sumHours (tasks decimalSlot) \<le> 3"
    by (auto simp: decimalSlot_def)
  show ?thesis using h1 k j2 j3 h3 h4 h2 s same f by simp
qed

section \<open>Hours of zero\<close>

lemma morning_bucket_complex:
  "t \<in> set (tasks (balanceSlot (fst (distribute ts emptySlots)))) \<Longrightarrow> isComplex t"
  using balanceSlot_set [of "fst (distribute ts emptySlots)"] by (auto simp: buckets)

text \<open>
  C10. For every task whose hours are exactly 0 the core behaves as if the field were
  absent: the complexity sub-score is 2, no effort bonus is added to the impact sub-score
  (factors and urgency score are those of the task without hours), the hours count as 0 in
  the sums, and in slot assignment the task is never classified as complex, so it is never
  placed in the morning slot.
\<close>

theorem zero_hours_as_absent:
  assumes "estimated_hours t = Some 0"
  shows "getComplexityScore (estimated_hours t) = 2
    \<and> getImpactScore t = getImpactScore (t\<lparr>estimated_hours := None\<rparr>)
    \<and> factors (calculateUrgencyScore parse now t)
      = factors (calculateUrgencyScore parse now (t\<lparr>estimated_hours := None\<rparr>))
    \<and> urgencyScore (calculateUrgencyScore parse now t)
      = urgencyScore (calculateUrgencyScore parse now (t\<lparr>estimated_hours := None\<rparr>))
    \<and> hoursOr0 t = hoursOr0 (t\<lparr>estimated_hours := None\<rparr>)
    \<and> \<not> isComplex t
    \<and> t \<notin> set (tasks (fst (categorizeTasksByEnergy ts)))
    \<and> t \<notin> set (tasks (morning (generateDailySchedule parse clock today ts')))"
proof -
  have c: "\<not> isComplex t" using assms by (simp add: isComplex_def hoursOr0_def)
  have m1: "t \<notin> set (tasks (fst (categorizeTasksByEnergy ts)))"
    using c morning_bucket_complex [of t ts] by (auto simp: categorizeTasksByEnergy_slots)
  have m2: "t \<notin> set (tasks (morning (generateDailySchedule parse clock today ts')))"
    using c morning_bucket_complex [of t] by (auto simp: generateDailySchedule_buckets)
  have s: "getComplexityScore (estimated_hours t) = 2
    \<and> getImpactScore t = getImpactScore (t\<lparr>estimated_hours := None\<rparr>)
    \<and> factors (calculateUrgencyScore parse now t)
      = factors (calculateUrgencyScore parse now (t\<lparr>estimated_hours := None\<rparr>))
    \<and> urgencyScore (calculateUrgencyScore parse now t)
      = urgencyScore (calculateUrgencyScore parse now (t\<lparr>estimated_hours := None\<rparr>))
    \<and> hoursOr0 t = hoursOr0 (t\<lparr>estimated_hours := None\<rparr>)"
    using assms
    by (simp add: calculateUrgencyScore_def Let_def getUrgencyFactors_def getImpactScore_def
        getDependencyScore_def getComplexityScore_def hoursOr0_def)
  show ?thesis using s c m1 m2 by blast
qed

theorem zero_hours_as_absent_witness:
  "estimated_hours (exampleTask 1 exhibition (Some 0) None) = Some 0
   \<and> getComplexityScore (estimated_hours (exampleTask 1 exhibition (Some 0) None)) = 2
   \<and> \<not> isComplex (exampleTask 1 exhibition (Some 0) None)
   \<and> exampleTask 1 exhibition (Some 0) None
      \<notin> set (tasks (morning (generateDailySchedule exampleParse (\<lambda>k. 0) ''2025-12-03''
                [exampleTask 1 exhibition (Some 0) None])))"
proof -
  have h: "estimated_hours (exampleTask 1 exhibition (Some 0) None) = Some 0"
    by (simp add: exampleTask_def)
  show ?thesis
    using zero_hours_as_absent [OF h, of exampleParse 0 "[]" "\<lambda>k. 0" "''2025-12-03''"
        "[exampleTask 1 exhibition (Some 0) None]"] h
    by blast
qed

end
